theory Spec2Isabelle
  imports Main "HOL-Library.Sublist"
begin

section \<open>Versioned slide store (db/crud.py, db/models.py)\<close>

text \<open>
  The rows of the two tables \<^verbatim>\<open>slides\<close> and \<^verbatim>\<open>slide_versions\<close>. Python integers are
  \<^typ>\<open>int\<close>, a nullable text column is an \<^typ>\<open>string option\<close>, the JSON column with the
  bullet points is a list of strings. The timestamp columns (\<^verbatim>\<open>created_at\<close>,
  \<^verbatim>\<open>updated_at\<close>) are left out: no operation below reads them.

  The relationship \<^verbatim>\<open>SlideModel.versions\<close> is declared with
  \<^verbatim>\<open>order_by="SlideVersionModel.version_number"\<close>, so the list a slide carries is the
  list of its version rows sorted by \<^verbatim>\<open>version_number\<close>.
\<close>

record SlideVersionModel =
  version_number :: int
  sv_title :: string
  sv_content_json :: "string list"
  sv_speaker_notes :: "string option"
  sv_instruction :: "string option"

record SlideModel =
  slide_number :: int
  title :: string
  content_json :: "string list"
  speaker_notes :: "string option"
  current_version :: int
  versions :: "SlideVersionModel list"

text \<open>\<^verbatim>\<open>create_slide\<close>: a new slide row together with its version 0.\<close>

definition create_slide ::
  "int \<Rightarrow> string \<Rightarrow> string list \<Rightarrow> string option \<Rightarrow> string \<Rightarrow> SlideModel" where
  "create_slide num t c notes instruction =
     \<lparr> slide_number = num, title = t, content_json = c, speaker_notes = notes,
       current_version = 0,
       versions = [\<lparr> version_number = 0, sv_title = t, sv_content_json = c,
                     sv_speaker_notes = notes, sv_instruction = Some instruction \<rparr>] \<rparr>"

text \<open>
  \<^verbatim>\<open>update_slide_content\<close>: the new row gets the number \<^verbatim>\<open>len(slide.versions)\<close>, the slide
  takes the new content and points at the new number; after the commit the relationship
  is read again in \<^verbatim>\<open>version_number\<close> order.
\<close>

definition update_slide_content ::
  "SlideModel \<Rightarrow> string \<Rightarrow> string list \<Rightarrow> string option \<Rightarrow> string option \<Rightarrow> SlideModel" where
  "update_slide_content slide t c notes instruction =
     (let new_version_num = int (length (versions slide));
          version = \<lparr> version_number = new_version_num, sv_title = t, sv_content_json = c,
                      sv_speaker_notes = notes, sv_instruction = instruction \<rparr>
      in slide \<lparr> title := t, content_json := c, speaker_notes := notes,
                 current_version := new_version_num,
                 versions := sort_key version_number (versions slide @ [version]) \<rparr>)"

text \<open>
  \<^verbatim>\<open>rollback_slide_version\<close>: \<^verbatim>\<open>None\<close> when the index is negative or not below the number
  of versions; otherwise the slide takes the content of that version and points at it.
\<close>

definition rollback_slide_version :: "SlideModel \<Rightarrow> int \<Rightarrow> SlideModel option" where
  "rollback_slide_version slide version_index =
     (if version_index < 0 \<or> version_index \<ge> int (length (versions slide)) then None
      else let version = versions slide ! nat version_index
           in Some (slide \<lparr> title := sv_title version,
                            content_json := sv_content_json version,
                            speaker_notes := sv_speaker_notes version,
                            current_version := version_index \<rparr>))"

text \<open>
  The version numbers of a slide are dense: the k-th row carries the number k. This holds
  for every slide made by \<^const>\<open>create_slide\<close> and is kept by the two operations above.
\<close>

definition dense_versions :: "SlideModel \<Rightarrow> bool" where
  "dense_versions slide \<longleftrightarrow>
     map version_number (versions slide) = map int [0 ..< length (versions slide)]"


text \<open>
  A sequence of edits of one slide, for statements about every later history. A rollback
  that returns \<^verbatim>\<open>None\<close> has changed nothing.
\<close>

datatype slide_op =
  Append string "string list" "string option" "string option"
| Rollback int

fun apply_slide_op :: "slide_op \<Rightarrow> SlideModel \<Rightarrow> SlideModel" where
  "apply_slide_op (Append t c notes instruction) slide =
     update_slide_content slide t c notes instruction"
| "apply_slide_op (Rollback i) slide =
     (case rollback_slide_version slide i of None \<Rightarrow> slide | Some slide' \<Rightarrow> slide')"

fun run_slide_ops :: "slide_op list \<Rightarrow> SlideModel \<Rightarrow> SlideModel" where
  "run_slide_ops [] slide = slide"
| "run_slide_ops (e # es) slide = run_slide_ops es (apply_slide_op e slide)"


section \<open>Schema objects and the session manager (app/models/schemas.py, app/services)\<close>

text \<open>
  The exceptions the modelled code raises. \<^verbatim>\<open>ValueError(f"Slide {n} not found")\<close> carries its
  slide number, \<^verbatim>\<open>ValueError(f"Session {id} not found")\<close> its session id; \<open>Raised\<close> is any
  other exception with its message.
\<close>

datatype exn =
  IndexError
| SessionNotFound string
| SlideNotFound int
| MultipleResultsFound
| Raised string

text \<open>Python's \<^verbatim>\<open>xs[i]\<close>: a negative index counts from the end, \<open>None\<close> is IndexError.\<close>

definition py_index :: "'a list \<Rightarrow> int \<Rightarrow> 'a option" where
  "py_index xs i =
     (if 0 \<le> i \<and> i < int (length xs) then Some (xs ! nat i)
      else if i < 0 \<and> - int (length xs) \<le> i then Some (xs ! nat (int (length xs) + i))
      else None)"

record SlideVersion =
  version :: int
  v_title :: string
  v_content :: "string list"
  v_speaker_notes :: "string option"
  v_instruction :: "string option"

record SlideWithHistory =
  h_slide_number :: int
  h_current_version :: int
  h_versions :: "SlideVersion list"

text \<open>The property \<^verbatim>\<open>SlideWithHistory.current\<close>: \<^verbatim>\<open>self.versions[self.current_version]\<close>.\<close>

definition current :: "SlideWithHistory \<Rightarrow> SlideVersion option" where
  "current slide = py_index (h_versions slide) (h_current_version slide)"

text \<open>
  A session row with the slides it owns, and the schema object built from it. The chat
  log and the timestamps are left out; template and tone stay strings.
\<close>

record SessionModel =
  session_id :: string
  topic :: "string option"
  template :: string
  tone :: string
  context_memory :: "string option"
  slides :: "SlideModel list"

record SessionData =
  d_session_id :: string
  d_topic :: "string option"
  d_template :: string
  d_tone :: string
  d_slides :: "SlideWithHistory list"
  d_context_memory :: string

text \<open>
  \<^verbatim>\<open>_db_session_to_schema\<close>: every version is numbered by its position in the loaded
  list (\<^verbatim>\<open>enumerate\<close>), not by its stored number.
\<close>

definition db_version_to_schema :: "nat \<times> SlideVersionModel \<Rightarrow> SlideVersion" where
  "db_version_to_schema p =
     \<lparr> version = int (fst p), v_title = sv_title (snd p), v_content = sv_content_json (snd p),
       v_speaker_notes = sv_speaker_notes (snd p), v_instruction = sv_instruction (snd p) \<rparr>"

definition db_slide_to_schema :: "SlideModel \<Rightarrow> SlideWithHistory" where
  "db_slide_to_schema db_slide =
     \<lparr> h_slide_number = slide_number db_slide,
       h_current_version = current_version db_slide,
       h_versions = map db_version_to_schema (List.enumerate 0 (versions db_slide)) \<rparr>"

definition db_session_to_schema :: "SessionModel \<Rightarrow> SessionData" where
  "db_session_to_schema db_session =
     \<lparr> d_session_id = session_id db_session,
       d_topic = topic db_session,
       d_template = template db_session,
       d_tone = tone db_session,
       d_slides = map db_slide_to_schema (slides db_session),
       d_context_memory = (case context_memory db_session of None \<Rightarrow> [] | Some m \<Rightarrow> m) \<rparr>"

text \<open>
  The state the session manager works on: the database (sessions by their UUID, each with
  its slides) and the manager's in-memory cache \<^verbatim>\<open>self.sessions\<close>.
\<close>

record store =
  db :: "string \<rightharpoonup> SessionModel"
  sessions :: "string \<rightharpoonup> SessionData"

text \<open>\<^verbatim>\<open>SessionManager.get_session\<close>: the cache first, then the database (filling the cache).\<close>

definition get_session :: "store \<Rightarrow> string \<Rightarrow> SessionData option \<times> store" where
  "get_session st sid =
     (case sessions st sid of
        Some session \<Rightarrow> (Some session, st)
      | None \<Rightarrow>
         (case db st sid of
            Some db_session \<Rightarrow>
              (let session = db_session_to_schema db_session
               in (Some session, st \<lparr> sessions := (sessions st)(sid \<mapsto> session) \<rparr>))
          | None \<Rightarrow> (None, st)))"

text \<open>
  \<^verbatim>\<open>crud.get_slide\<close>: the session by UUID, then the slide rows of that session with the
  given number; \<^verbatim>\<open>scalar_one_or_none\<close> gives \<^verbatim>\<open>None\<close> for no row, the row when there is one,
  and raises when there are several. The row is identified by its position in the
  session's slide list.
\<close>

definition get_slide :: "(string \<rightharpoonup> SessionModel) \<Rightarrow> string \<Rightarrow> int \<Rightarrow> exn + (SessionModel \<times> nat) option" where
  "get_slide d sid num =
     (case d sid of
        None \<Rightarrow> Inr None
      | Some session \<Rightarrow>
         (case filter (\<lambda>k. slide_number (slides session ! k) = num) [0 ..< length (slides session)] of
            [] \<Rightarrow> Inr None
          | [k] \<Rightarrow> Inr (Some (session, k))
          | _ \<Rightarrow> Inl MultipleResultsFound))"

text \<open>
  What \<^verbatim>\<open>update_slide\<close> and \<^verbatim>\<open>rollback_slide\<close> of the session manager do after the
  database change: load the session again, refresh the cache, return the first slide
  of the cached session with the requested number.
\<close>

definition refresh_and_find :: "store \<Rightarrow> string \<Rightarrow> SessionModel \<Rightarrow> int \<Rightarrow> store \<times> SlideWithHistory option" where
  "refresh_and_find st sid db_session num =
     (let session = db_session_to_schema db_session
      in (\<lparr> db = (db st)(sid \<mapsto> db_session), sessions = (sessions st)(sid \<mapsto> session) \<rparr>,
          find (\<lambda>slide. h_slide_number slide = num) (d_slides session)))"

definition SessionManager_update_slide ::
  "store \<Rightarrow> string \<Rightarrow> int \<Rightarrow> SlideVersion \<Rightarrow> store \<times> (exn + SlideWithHistory option)" where
  "SessionManager_update_slide st sid num new_version =
     (case get_slide (db st) sid num of
        Inl e \<Rightarrow> (st, Inl e)
      | Inr None \<Rightarrow> (st, Inr None)
      | Inr (Some (db_session, k)) \<Rightarrow>
         (let updated_slide = update_slide_content (slides db_session ! k)
                (v_title new_version) (v_content new_version)
                (v_speaker_notes new_version) (v_instruction new_version);
              r = refresh_and_find st sid
                    (db_session \<lparr> slides := (slides db_session)[k := updated_slide] \<rparr>) num
          in (fst r, Inr (snd r))))"

definition SessionManager_rollback_slide ::
  "store \<Rightarrow> string \<Rightarrow> int \<Rightarrow> int \<Rightarrow> store \<times> (exn + SlideWithHistory option)" where
  "SessionManager_rollback_slide st sid num version_index =
     (case get_slide (db st) sid num of
        Inl e \<Rightarrow> (st, Inl e)
      | Inr None \<Rightarrow> (st, Inr None)
      | Inr (Some (db_session, k)) \<Rightarrow>
         (case rollback_slide_version (slides db_session ! k) version_index of
            None \<Rightarrow> (st, Inr None)
          | Some updated_slide \<Rightarrow>
             (let r = refresh_and_find st sid
                        (db_session \<lparr> slides := (slides db_session)[k := updated_slide] \<rparr>) num
              in (fst r, Inr (snd r)))))"

text \<open>
  \<^verbatim>\<open>SlideService.update_slide\<close>. The range check is on the position \<^verbatim>\<open>slide_number - 1\<close> in
  the cached session. Building the prompt context reads the current version of every
  slide (an IndexError when a pointer is out of range). The call of the language model
  (\<^verbatim>\<open>outline_service.regenerate_slide\<close>) is the parameter \<open>regenerate_slide\<close>: it returns the
  new version or raises. The two chat messages written at the end are not modelled.
\<close>

definition SlideService_update_slide ::
  "(SlideWithHistory \<Rightarrow> string \<Rightarrow> exn + SlideVersion) \<Rightarrow>
   store \<Rightarrow> string \<Rightarrow> int \<Rightarrow> string \<Rightarrow> store \<times> (exn + SlideWithHistory option)" where
  "SlideService_update_slide regenerate_slide st sid num instruction =
     (case get_session st sid of
        (None, st1) \<Rightarrow> (st1, Inl (SessionNotFound sid))
      | (Some session, st1) \<Rightarrow>
         (let slide_idx = num - 1
          in if slide_idx < 0 \<or> slide_idx \<ge> int (length (d_slides session))
             then (st1, Inl (SlideNotFound num))
             else if \<not> list_all (\<lambda>s. current s \<noteq> None) (d_slides session)
             then (st1, Inl IndexError)
             else (case regenerate_slide (d_slides session ! nat slide_idx) instruction of
                     Inl e \<Rightarrow> (st1, Inl e)
                   | Inr new_version \<Rightarrow> SessionManager_update_slide st1 sid num new_version)))"

text \<open>
  \<^verbatim>\<open>SlideService.rollback_slide\<close>: the manager's rollback; on success the current version
  of the returned slide is read for the chat message (not modelled).
\<close>

definition SlideService_rollback_slide ::
  "store \<Rightarrow> string \<Rightarrow> int \<Rightarrow> int \<Rightarrow> store \<times> (exn + SlideWithHistory option)" where
  "SlideService_rollback_slide st sid num version_index =
     (case SessionManager_rollback_slide st sid num version_index of
        (st1, Inr (Some slide)) \<Rightarrow>
          (case current slide of None \<Rightarrow> (st1, Inl IndexError) | Some c \<Rightarrow> (st1, Inr (Some slide)))
      | r \<Rightarrow> r)"

text \<open>
  \<^verbatim>\<open>SessionManager.update_session\<close> deletes and inserts rows, so for it the database is
  modelled as its three tables. The engine is the one \<^verbatim>\<open>db/database.py\<close> configures:
  SQLite through \<^verbatim>\<open>sqlite+aiosqlite\<close>, with no \<^verbatim>\<open>PRAGMA foreign_keys\<close> (the \<^verbatim>\<open>ondelete\<close> of a
  foreign key is then not enforced), integer primary keys without \<^verbatim>\<open>sqlite_autoincrement\<close>
  (a new row gets the largest row id of its table plus one, 1 in an empty table), and
  sessions made with \<^verbatim>\<open>expire_on_commit=False\<close>. A table is the list of its rows in row id
  order. The version rows are kept without their own id, which nothing reads.
\<close>

record session_row =
  sess_id :: int
  sess_session_id :: string
  sess_topic :: "string option"
  sess_template :: string
  sess_tone :: string
  sess_context_memory :: "string option"

record slide_row =
  slide_id :: int
  owner_id :: int
  row_slide_number :: int
  row_title :: string
  row_content_json :: "string list"
  row_speaker_notes :: "string option"
  row_current_version :: int

record version_row =
  owner_slide_id :: int
  version_cols :: SlideVersionModel

record database =
  session_rows :: "session_row list"
  slide_rows :: "slide_row list"
  version_rows :: "version_row list"

text \<open>
  Loading a slide object: its columns, and as \<^verbatim>\<open>versions\<close> the version rows whose
  \<^verbatim>\<open>slide_id\<close> is the slide's id, ordered by \<^verbatim>\<open>version_number\<close> (rows with equal numbers
  are left here in table order; SQL does not fix their order). Loading a session object:
  its columns, and as \<^verbatim>\<open>slides\<close> the slide rows whose \<^verbatim>\<open>session_id\<close> is the session's id.
\<close>

definition load_slide :: "database \<Rightarrow> slide_row \<Rightarrow> SlideModel" where
  "load_slide d r =
     \<lparr> slide_number = row_slide_number r, title = row_title r,
       content_json = row_content_json r, speaker_notes = row_speaker_notes r,
       current_version = row_current_version r,
       versions = sort_key version_number
                    (map version_cols
                       (filter (\<lambda>v. owner_slide_id v = slide_id r) (version_rows d))) \<rparr>"

definition load_session :: "database \<Rightarrow> session_row \<Rightarrow> SessionModel" where
  "load_session d s =
     \<lparr> session_id = sess_session_id s, topic = sess_topic s, template = sess_template s,
       tone = sess_tone s, context_memory = sess_context_memory s,
       slides = map (load_slide d) (filter (\<lambda>r. owner_id r = sess_id s) (slide_rows d)) \<rparr>"

text \<open>\<^verbatim>\<open>crud.get_session_by_uuid\<close> in a new database session; the UUID column is unique.\<close>

definition select_session_row :: "database \<Rightarrow> string \<Rightarrow> session_row option" where
  "select_session_row d sid = find (\<lambda>s. sess_session_id s = sid) (session_rows d)"

definition get_session_by_uuid :: "database \<Rightarrow> string \<Rightarrow> SessionModel option" where
  "get_session_by_uuid d sid = map_option (load_session d) (select_session_row d sid)"

text \<open>\<^verbatim>\<open>crud.update_session\<close> sets the fields that are not \<^verbatim>\<open>None\<close>.\<close>

definition update_session_fields ::
  "session_row \<Rightarrow> string option \<Rightarrow> string option \<Rightarrow> string option \<Rightarrow> string option \<Rightarrow> session_row" where
  "update_session_fields s new_topic new_template new_tone new_context_memory =
     (let s1 = (case new_topic of None \<Rightarrow> s | Some x \<Rightarrow> s \<lparr> sess_topic := Some x \<rparr>);
          s2 = (case new_template of None \<Rightarrow> s1 | Some x \<Rightarrow> s1 \<lparr> sess_template := x \<rparr>);
          s3 = (case new_tone of None \<Rightarrow> s2 | Some x \<Rightarrow> s2 \<lparr> sess_tone := x \<rparr>)
      in (case new_context_memory of
            None \<Rightarrow> s3
          | Some x \<Rightarrow> s3 \<lparr> sess_context_memory := Some x \<rparr>))"

definition crud_update_session ::
  "database \<Rightarrow> string \<Rightarrow> string option \<Rightarrow> string option \<Rightarrow> string option \<Rightarrow> string option \<Rightarrow> database" where
  "crud_update_session d sid new_topic new_template new_tone new_context_memory =
     d \<lparr> session_rows :=
           map (\<lambda>s. if sess_session_id s = sid
                    then update_session_fields s new_topic new_template new_tone new_context_memory
                    else s)
             (session_rows d) \<rparr>"

text \<open>
  \<^verbatim>\<open>crud.delete_slides_for_session\<close> is one \<^verbatim>\<open>DELETE\<close> statement on the table \<^verbatim>\<open>slides\<close>. It
  does not go through the relationship's cascade, and the database does not enforce the
  foreign key, so the rows of \<^verbatim>\<open>slide_versions\<close> stay.
\<close>

definition delete_slides_for_session :: "database \<Rightarrow> int \<Rightarrow> database" where
  "delete_slides_for_session d session_db_id =
     d \<lparr> slide_rows := filter (\<lambda>r. owner_id r \<noteq> session_db_id) (slide_rows d) \<rparr>"

definition next_rowid :: "int list \<Rightarrow> int" where
  "next_rowid ids = (if ids = [] then 1 else foldr max ids 0 + 1)"

text \<open>\<^verbatim>\<open>crud.create_slide\<close> on the tables: the slide row with a new id, and its version 0.\<close>

definition create_slide_rows ::
  "database \<Rightarrow> int \<Rightarrow> int \<Rightarrow> string \<Rightarrow> string list \<Rightarrow> string option \<Rightarrow> string \<Rightarrow> database" where
  "create_slide_rows d session_db_id num t c notes instruction =
     (let new_id = next_rowid (map slide_id (slide_rows d))
      in d \<lparr> slide_rows := slide_rows d @
                [\<lparr> slide_id = new_id, owner_id = session_db_id, row_slide_number = num,
                   row_title = t, row_content_json = c, row_speaker_notes = notes,
                   row_current_version = 0 \<rparr>],
              version_rows := version_rows d @
                [\<lparr> owner_slide_id = new_id,
                   version_cols = \<lparr> version_number = 0, sv_title = t, sv_content_json = c,
                                    sv_speaker_notes = notes,
                                    sv_instruction = Some instruction \<rparr> \<rparr>] \<rparr>)"

text \<open>
  The loop of \<^verbatim>\<open>SessionManager.update_session\<close> over the supplied slides: each one is
  persisted by \<^verbatim>\<open>crud.create_slide\<close> from the version at its current pointer, with the
  fixed instruction. Every \<^verbatim>\<open>create_slide\<close> commits, so when
  \<^verbatim>\<open>slide.versions[slide.current_version]\<close> raises, the rows created so far stay.
\<close>

fun recreate_slides :: "SlideWithHistory list \<Rightarrow> int \<Rightarrow> database \<Rightarrow> database \<times> exn option" where
  "recreate_slides [] session_db_id d = (d, None)"
| "recreate_slides (slide # rest) session_db_id d =
     (case py_index (h_versions slide) (h_current_version slide) of
        None \<Rightarrow> (d, Some IndexError)
      | Some cur \<Rightarrow>
          recreate_slides rest session_db_id
            (create_slide_rows d session_db_id (h_slide_number slide) (v_title cur)
               (v_content cur) (v_speaker_notes cur) ''Initial generation''))"

text \<open>
  \<^verbatim>\<open>SessionManager.update_session\<close>, on the tables and the manager's cache. \<^verbatim>\<open>None\<close> for an
  unknown session. \<^verbatim>\<open>crud.update_session\<close> writes the fields and refreshes the session
  object, which from then on holds the slides as they were loaded. With a slide list,
  the slide rows of the session are deleted and the supplied slides inserted. The last
  \<^verbatim>\<open>get_session_by_uuid\<close> runs in the same database session: the session object is already
  in its identity map, not expired, with its \<^verbatim>\<open>slides\<close> loaded, so the query leaves the
  object as it is. That object is converted, cached and returned.
\<close>

definition SessionManager_update_session ::
  "database \<Rightarrow> (string \<rightharpoonup> SessionData) \<Rightarrow> string \<Rightarrow> string option \<Rightarrow>
   SlideWithHistory list option \<Rightarrow> string option \<Rightarrow> string option \<Rightarrow> string option \<Rightarrow>
   (database \<times> (string \<rightharpoonup> SessionData)) \<times> (exn + SessionData option)" where
  "SessionManager_update_session d cache sid new_topic new_slides new_context_memory
       new_template new_tone =
     (case select_session_row d sid of
        None \<Rightarrow> ((d, cache), Inr None)
      | Some row \<Rightarrow>
         (let d1 = crud_update_session d sid new_topic new_template new_tone new_context_memory;
              db_session = load_session d1
                 (update_session_fields row new_topic new_template new_tone new_context_memory);
              r = (case new_slides of
                     None \<Rightarrow> (d1, None)
                   | Some supplied \<Rightarrow>
                       recreate_slides supplied (sess_id row)
                         (delete_slides_for_session d1 (sess_id row)))
          in (case snd r of
                Some e \<Rightarrow> ((fst r, cache), Inl e)
              | None \<Rightarrow>
                 (let session = db_session_to_schema db_session
                  in ((fst r, cache(sid \<mapsto> session)), Inr (Some session))))))"


section \<open>Provider router (app/ai/router.py, app/ai/providers/base_provider.py)\<close>

datatype ProviderStatus = AVAILABLE | RATE_LIMITED | ERROR | UNAVAILABLE

record ProviderResponse =
  success :: bool
  content :: string
  provider_name :: string
  model :: string
  tokens_used :: "int option"
  error :: "string option"

text \<open>The state of a provider object that the router reads: its name and its status.\<close>

record Provider =
  name :: string
  status :: ProviderStatus

text \<open>
  One call of \<^verbatim>\<open>provider.generate_text\<close> or \<^verbatim>\<open>provider.generate_json\<close> goes to an
  external service. What the router sees of it is a response or a raised exception
  (with its \<^verbatim>\<open>str\<close>), and the status the provider object has afterwards.
\<close>

datatype outcome =
  Returns ProviderResponse ProviderStatus
| Raises string ProviderStatus

text \<open>
  The router: the providers in priority order and the cooldown dictionary from provider
  name to the end of the cooldown. Time is a number of seconds; one router call reads
  the clock as the single value \<open>now\<close>.
\<close>

record AIRouter =
  providers :: "Provider list"
  cooldowns :: "string \<rightharpoonup> int"

definition COOLDOWN_MINUTES :: int where
  "COOLDOWN_MINUTES = 1"

text \<open>\<^verbatim>\<open>_is_in_cooldown\<close> removes an entry whose end lies before \<open>now\<close>.\<close>

definition is_in_cooldown :: "int \<Rightarrow> AIRouter \<Rightarrow> string \<Rightarrow> bool \<times> AIRouter" where
  "is_in_cooldown now r pname =
     (case cooldowns r pname of
        None \<Rightarrow> (False, r)
      | Some cooldown_end \<Rightarrow>
          if now > cooldown_end
          then (False, r \<lparr> cooldowns := (cooldowns r)(pname := None) \<rparr>)
          else (True, r))"

definition set_cooldown :: "int \<Rightarrow> AIRouter \<Rightarrow> string \<Rightarrow> AIRouter" where
  "set_cooldown now r pname =
     r \<lparr> cooldowns := (cooldowns r)(pname \<mapsto> now + COOLDOWN_MINUTES * 60) \<rparr>"

text \<open>
  \<^verbatim>\<open>get_available_providers\<close>. The Python list holds references to the provider objects;
  here a provider is referred to by its position in \<^const>\<open>providers\<close>, so the result is
  the list of the selected positions, in the order of the loop.
\<close>

fun available_from :: "int \<Rightarrow> nat list \<Rightarrow> AIRouter \<Rightarrow> nat list \<times> AIRouter" where
  "available_from now [] r = ([], r)"
| "available_from now (k # ks) r =
     (let provider = providers r ! k;
          c = is_in_cooldown now r (name provider);
          rest = available_from now ks (snd c)
      in if \<not> fst c \<and> (status provider = AVAILABLE \<or> status provider = ERROR)
         then (k # fst rest, snd rest)
         else rest)"

definition get_available_providers :: "int \<Rightarrow> AIRouter \<Rightarrow> nat list \<times> AIRouter" where
  "get_available_providers now r = available_from now [0 ..< length (providers r)] r"

text \<open>
  The loop over the candidates, the same in \<^verbatim>\<open>generate_text\<close> and \<^verbatim>\<open>generate_json\<close>. The
  parameter \<open>call\<close> is the provider method that is awaited. The result is the successful
  response, or \<^verbatim>\<open>last_error\<close> when the list is exhausted; with it come the router
  afterwards and the positions of the providers that were called, in order.
\<close>

fun try_providers ::
  "(Provider \<Rightarrow> outcome) \<Rightarrow> int \<Rightarrow> nat list \<Rightarrow> string option \<Rightarrow> AIRouter \<Rightarrow>
   (string option + ProviderResponse) \<times> AIRouter \<times> nat list" where
  "try_providers call now [] last_error r = (Inl last_error, r, [])"
| "try_providers call now (k # ks) last_error r =
     (let provider = providers r ! k
      in case call provider of
           Raises e st \<Rightarrow>
             (let r1 = r \<lparr> providers := (providers r)[k := provider \<lparr> status := st \<rparr>] \<rparr>;
                  rest = try_providers call now ks (Some e) r1
              in (fst rest, fst (snd rest), k # snd (snd rest)))
         | Returns response st \<Rightarrow>
             (let r1 = r \<lparr> providers := (providers r)[k := provider \<lparr> status := st \<rparr>] \<rparr>
              in if success response then (Inr response, r1, [k])
                 else
                   (let r2 = (if st = RATE_LIMITED then set_cooldown now r1 (name provider) else r1);
                        rest = try_providers call now ks (error response) r2
                    in (fst rest, fst (snd rest), k # snd (snd rest)))))"

text \<open>An f-string shows the value \<^verbatim>\<open>None\<close> as the text \<open>None\<close>.\<close>

definition py_str :: "string option \<Rightarrow> string" where
  "py_str x = (case x of None \<Rightarrow> ''None'' | Some s \<Rightarrow> s)"

definition no_provider_response :: "string \<Rightarrow> ProviderResponse" where
  "no_provider_response msg =
     \<lparr> success = False, content = [], provider_name = ''none'', model = ''none'',
       tokens_used = None, error = Some msg \<rparr>"

definition generate_text ::
  "(Provider \<Rightarrow> outcome) \<Rightarrow> int \<Rightarrow> AIRouter \<Rightarrow> ProviderResponse \<times> AIRouter \<times> nat list" where
  "generate_text call now r =
     (let available = get_available_providers now r
      in if fst available = []
         then (no_provider_response
                 ''All AI providers are currently unavailable. Please try again later.'',
               snd available, [])
         else
           (let t = try_providers call now (fst available) None (snd available)
            in case fst t of
                 Inr response \<Rightarrow> (response, snd t)
               | Inl last_error \<Rightarrow>
                   (no_provider_response (''All providers failed. Last error: '' @ py_str last_error),
                    snd t)))"

definition generate_json ::
  "(Provider \<Rightarrow> outcome) \<Rightarrow> int \<Rightarrow> AIRouter \<Rightarrow> ProviderResponse \<times> AIRouter \<times> nat list" where
  "generate_json call now r =
     (let available = get_available_providers now r
      in if fst available = []
         then (no_provider_response
                 ''All AI providers are currently unavailable. Please try again later.'',
               snd available, [])
         else
           (let t = try_providers call now (fst available) None (snd available)
            in case fst t of
                 Inr response \<Rightarrow> (response, snd t)
               | Inl last_error \<Rightarrow>
                   (no_provider_response
                      (''All providers failed for JSON generation. Last error: '' @ py_str last_error),
                    snd t)))"

text \<open>A provider is under cooldown at \<open>now\<close>: it has an entry that has not ended.\<close>

definition under_cooldown :: "int \<Rightarrow> AIRouter \<Rightarrow> string \<Rightarrow> bool" where
  "under_cooldown now r pname =
     (case cooldowns r pname of None \<Rightarrow> False | Some cooldown_end \<Rightarrow> \<not> now > cooldown_end)"

text \<open>
  The candidate list as the specification words it: the configured providers that are
  not under cooldown and not in the unconfigured state, in priority order.
\<close>

definition spec_candidates :: "int \<Rightarrow> AIRouter \<Rightarrow> nat list" where
  "spec_candidates now r =
     filter (\<lambda>k. \<not> under_cooldown now r (name (providers r ! k)) \<and>
                 status (providers r ! k) \<noteq> UNAVAILABLE)
       [0 ..< length (providers r)]"

text \<open>A call has failed for the router when it raised or returned without success.\<close>

fun failed :: "outcome \<Rightarrow> bool" where
  "failed (Raises e st) = True"
| "failed (Returns response st) = (\<not> success response)"

text \<open>The text the router keeps as \<^verbatim>\<open>last_error\<close> from a failed call, as an f-string shows it.\<close>

fun failure_text :: "outcome \<Rightarrow> string" where
  "failure_text (Raises e st) = e"
| "failure_text (Returns response st) = py_str (error response)"


section \<open>JSON mode of the providers (groq_provider.py, gemini_provider.py)\<close>

text \<open>
  A Python string is modelled as a \<^typ>\<open>string\<close>, a character as its code point below
  256. \<^verbatim>\<open>str.strip()\<close> removes leading and trailing whitespace; the whitespace
  characters in that range are the ones below: tab, line feed, vertical tab, form feed,
  carriage return, the four separators, the space, next line (U+0085) and the no-break
  space (U+00A0).
\<close>

definition isspace :: "char \<Rightarrow> bool" where
  "isspace ch \<longleftrightarrow>
     ch \<in> set [CHR 0x09, CHR 0x0A, CHR 0x0B, CHR 0x0C, CHR 0x0D,
               CHR 0x1C, CHR 0x1D, CHR 0x1E, CHR 0x1F, CHR 0x20, CHR 0x85, CHR 0xA0]"

definition strip :: "string \<Rightarrow> string" where
  "strip s = rev (dropWhile isspace (rev (dropWhile isspace s)))"

definition startswith :: "string \<Rightarrow> string \<Rightarrow> bool" where
  "startswith s p \<longleftrightarrow> take (length p) s = p"

definition endswith :: "string \<Rightarrow> string \<Rightarrow> bool" where
  "endswith s p \<longleftrightarrow> length p \<le> length s \<and> drop (length s - length p) s = p"

text \<open>
  The clean-up in \<^verbatim>\<open>generate_json\<close>, the same text in both providers: strip, drop a
  leading \<^verbatim>\<open>```json\<close>, then a leading \<^verbatim>\<open>```\<close>, then a trailing \<^verbatim>\<open>```\<close>, and strip again.
  The three tests are three separate \<^verbatim>\<open>if\<close> statements, each on the result of the one
  before.
\<close>

definition clean_json_content :: "string \<Rightarrow> string" where
  "clean_json_content raw =
     (let c0 = strip raw;
          c1 = (if startswith c0 ''```json'' then drop 7 c0 else c0);
          c2 = (if startswith c1 ''```'' then drop 3 c1 else c1);
          c3 = (if endswith c2 ''```'' then take (length c2 - 3) c2 else c2)
      in strip c3)"

text \<open>
  \<^verbatim>\<open>generate_json\<close> of a provider, applied to the response its own \<^verbatim>\<open>generate_text\<close> has
  returned. \<^verbatim>\<open>json.loads\<close> is the parameter \<open>json_loads\<close>: \<open>None\<close> when the text parses,
  \<open>Some e\<close> when it raises \<^verbatim>\<open>JSONDecodeError\<close> with the message \<open>e\<close>.
\<close>

definition provider_generate_json ::
  "(string \<Rightarrow> string option) \<Rightarrow> ProviderResponse \<Rightarrow> ProviderResponse" where
  "provider_generate_json json_loads response =
     (if success response
      then (let cleaned = clean_json_content (content response)
            in case json_loads cleaned of
                 None \<Rightarrow> response \<lparr> content := cleaned \<rparr>
               | Some e \<Rightarrow> response \<lparr> success := False,
                                       error := Some (''Invalid JSON response: '' @ e) \<rparr>)
      else response)"


section \<open>Job manager (app/services/job_service.py)\<close>

datatype JobStatus = PENDING | PROCESSING | COMPLETED | FAILED

text \<open>
  A task function, as far as the job manager can tell: while it runs it calls
  \<^verbatim>\<open>update_job_progress\<close> for its own job some number of times, and then it returns a
  value or raises an exception (of class \<^verbatim>\<open>Exception\<close>, the class \<^verbatim>\<open>_execute_job\<close>
  catches) with the given \<^verbatim>\<open>str\<close>.
\<close>

datatype task_end = TaskReturns string | TaskRaises string

record task =
  reports :: "(int \<times> string) list"
  task_end :: task_end

text \<open>The dataclass \<^verbatim>\<open>Job\<close>, without its two timestamps and the task arguments.\<close>

record Job =
  job_id :: string
  job_session_id :: string
  job_type :: string
  job_status :: JobStatus
  progress :: int
  message :: string
  job_error :: "string option"
  result :: "string option"
  task_func :: "task option"

record JobManager =
  jobs :: "string \<rightharpoonup> Job"
  queue :: "string list"
  running :: bool

text \<open>\<^verbatim>\<open>JobManager.__init__\<close>.\<close>

definition new_JobManager :: JobManager where
  "new_JobManager = \<lparr> jobs = Map.empty, queue = [], running = False \<rparr>"

text \<open>\<^verbatim>\<open>create_job\<close>; the fresh \<^verbatim>\<open>uuid4\<close> is the parameter \<open>new_id\<close>.\<close>

definition create_job ::
  "JobManager \<Rightarrow> string \<Rightarrow> string \<Rightarrow> string \<Rightarrow> task option \<Rightarrow> Job \<times> JobManager" where
  "create_job m new_id sid jtype f =
     (let job = \<lparr> job_id = new_id, job_session_id = sid, job_type = jtype,
                  job_status = PENDING, progress = 0, message = ''Job queued'',
                  job_error = None, result = None, task_func = f \<rparr>
      in (job, m \<lparr> jobs := (jobs m)(new_id \<mapsto> job), queue := queue m @ [new_id] \<rparr>))"

definition get_job :: "JobManager \<Rightarrow> string \<Rightarrow> Job option" where
  "get_job m jid = jobs m jid"

text \<open>\<^verbatim>\<open>update_job_progress\<close> stores the number it is given.\<close>

definition update_job_progress :: "JobManager \<Rightarrow> string \<Rightarrow> int \<Rightarrow> string \<Rightarrow> JobManager" where
  "update_job_progress m jid p msg =
     (case jobs m jid of
        None \<Rightarrow> m
      | Some job \<Rightarrow> m \<lparr> jobs := (jobs m)(jid \<mapsto> job \<lparr> progress := p, message := msg \<rparr>) \<rparr>)"

text \<open>An assignment to fields of the job object registered under \<open>jid\<close>.\<close>

definition modify_job :: "JobManager \<Rightarrow> string \<Rightarrow> (Job \<Rightarrow> Job) \<Rightarrow> JobManager" where
  "modify_job m jid f =
     (case jobs m jid of None \<Rightarrow> m | Some job \<Rightarrow> m \<lparr> jobs := (jobs m)(jid \<mapsto> f job) \<rparr>)"

fun run_reports :: "(int \<times> string) list \<Rightarrow> string \<Rightarrow> JobManager \<Rightarrow> JobManager" where
  "run_reports [] jid m = m"
| "run_reports (x # xs) jid m = run_reports xs jid (update_job_progress m jid (fst x) (snd x))"

text \<open>
  \<^verbatim>\<open>_execute_job\<close> for the job registered under \<open>jid\<close>: processing with progress 0, then
  the task; on return completed with progress 100, on an exception failed with the
  exception's text, the progress left as it was.
\<close>

definition execute_job :: "JobManager \<Rightarrow> string \<Rightarrow> JobManager" where
  "execute_job m jid =
     (case jobs m jid of
        None \<Rightarrow> m
      | Some job \<Rightarrow>
         (let m1 = modify_job m jid
                     (\<lambda>j. j \<lparr> job_status := PROCESSING, progress := 0, message := ''Processing...'' \<rparr>)
          in case task_func job of
               None \<Rightarrow>
                 modify_job m1 jid
                   (\<lambda>j. j \<lparr> job_status := COMPLETED, progress := 100,
                            message := ''Completed successfully'' \<rparr>)
             | Some f \<Rightarrow>
                 (let m2 = run_reports (reports f) jid m1
                  in case task_end f of
                       TaskReturns v \<Rightarrow>
                         modify_job m2 jid
                           (\<lambda>j. j \<lparr> result := Some v, job_status := COMPLETED, progress := 100,
                                    message := ''Completed successfully'' \<rparr>)
                     | TaskRaises e \<Rightarrow>
                         modify_job m2 jid
                           (\<lambda>j. j \<lparr> job_status := FAILED, job_error := Some e,
                                    message := ''Failed: '' @ e \<rparr>))))"

text \<open>
  \<^verbatim>\<open>process_jobs\<close>, run until the queue is empty: each queued id is taken in order, an id
  without a job is skipped, a job is executed. (The Python loop then goes on polling
  the empty queue until it is stopped.)
\<close>

fun consume :: "string list \<Rightarrow> JobManager \<Rightarrow> JobManager" where
  "consume [] m = m"
| "consume (jid # rest) m =
     consume rest (case jobs m jid of None \<Rightarrow> m | Some job \<Rightarrow> execute_job m jid)"

definition process_jobs :: "JobManager \<Rightarrow> JobManager" where
  "process_jobs m = consume (queue m) (m \<lparr> running := True, queue := [] \<rparr>)"

text \<open>Sequences of job manager operations.\<close>

datatype job_op =
  CreateJob string string string "task option"
| UpdateProgress string int string
| ProcessJobs

fun apply_job_op :: "job_op \<Rightarrow> JobManager \<Rightarrow> JobManager" where
  "apply_job_op (CreateJob new_id sid jtype f) m = snd (create_job m new_id sid jtype f)"
| "apply_job_op (UpdateProgress jid p msg) m = update_job_progress m jid p msg"
| "apply_job_op ProcessJobs m = process_jobs m"

fun run_job_ops :: "job_op list \<Rightarrow> JobManager \<Rightarrow> JobManager" where
  "run_job_ops [] m = m"
| "run_job_ops (x # xs) m = run_job_ops xs (apply_job_op x m)"

text \<open>An operation is in range when every progress number it passes lies in 0..100.\<close>

definition percent :: "int \<Rightarrow> bool" where
  "percent p \<longleftrightarrow> 0 \<le> p \<and> p \<le> 100"

fun op_in_range :: "job_op \<Rightarrow> bool" where
  "op_in_range (CreateJob new_id sid jtype None) = True"
| "op_in_range (CreateJob new_id sid jtype (Some f)) = list_all (\<lambda>x. percent (fst x)) (reports f)"
| "op_in_range (UpdateProgress jid p msg) = percent p"
| "op_in_range ProcessJobs = True"


text \<open>
  The invariant behind the progress range: every registered job has a progress in
  0..100, and every progress number its task will report is in 0..100.
\<close>

definition progress_inv :: "JobManager \<Rightarrow> bool" where
  "progress_inv m \<longleftrightarrow>
     (\<forall>jid job. jobs m jid = Some job \<longrightarrow>
        percent (progress job) \<and>
        (\<forall>f. task_func job = Some f \<longrightarrow> list_all (\<lambda>x. percent (fst x)) (reports f)))"


section \<open>Properties of the slide store\<close>

lemma sorted_map_int_upt: "sorted (map int [0 ..< n])"
  by (simp add: sorted_map strict_sorted_imp_sorted sorted_wrt_mono_rel [of _ "(<)"])

lemma update_versions_snoc:
  assumes "dense_versions slide"
  shows "versions (update_slide_content slide t c notes instruction) =
         versions slide @ [\<lparr> version_number = int (length (versions slide)), sv_title = t,
                             sv_content_json = c, sv_speaker_notes = notes,
                             sv_instruction = instruction \<rparr>]"
proof -
  let ?v = "\<lparr> version_number = int (length (versions slide)), sv_title = t,
               sv_content_json = c, sv_speaker_notes = notes, sv_instruction = instruction \<rparr>"
  have "map version_number (versions slide @ [?v]) = map int [0 ..< Suc (length (versions slide))]"
    using assms by (simp add: dense_versions_def)
  then have "sorted (map version_number (versions slide @ [?v]))"
    by (simp only: sorted_map_int_upt)
  then have "sort_key version_number (versions slide @ [?v]) = versions slide @ [?v]"
    by (rule sort_key_id_if_sorted)
  then show ?thesis
    by (simp add: update_slide_content_def Let_def)
qed

lemma dense_create_slide: "dense_versions (create_slide num t c notes instruction)"
  by (simp add: dense_versions_def create_slide_def)

lemma dense_update:
  assumes "dense_versions slide"
  shows "dense_versions (update_slide_content slide t c notes instruction)"
  using assms unfolding dense_versions_def update_versions_snoc [OF assms]
  by simp

lemma rollback_versions:
  "rollback_slide_version slide i = Some slide' \<Longrightarrow> versions slide' = versions slide"
  by (auto simp: rollback_slide_version_def Let_def split: if_splits)

lemma dense_rollback:
  "dense_versions slide \<Longrightarrow> rollback_slide_version slide i = Some slide' \<Longrightarrow> dense_versions slide'"
  by (simp add: dense_versions_def rollback_versions)



lemma prefix_run_slide_ops:
  "dense_versions slide \<Longrightarrow>
   dense_versions (run_slide_ops es slide) \<and> prefix (versions slide) (versions (run_slide_ops es slide))"
proof (induction es arbitrary: slide)
  case Nil
  then show ?case by simp
next
  case (Cons e es)
  have step: "dense_versions (apply_slide_op e slide) \<and>
              prefix (versions slide) (versions (apply_slide_op e slide))"
  proof (cases e)
    case (Append t c nts ins)
    then show ?thesis
      using Cons.prems by (simp add: dense_update update_versions_snoc)
  next
    case (Rollback i)
    then show ?thesis
      using Cons.prems
      by (auto simp: rollback_versions dense_rollback split: option.splits)
  qed
  from Cons.IH [of "apply_slide_op e slide"] step
  show ?case by (auto intro: prefix_order.trans)
qed

lemma dense_reachable:
  "dense_versions (run_slide_ops es (create_slide num t c notes instruction))"
  using prefix_run_slide_ops [OF dense_create_slide] by blast





text \<open>
  C10. After \<^const>\<open>SessionManager_update_session\<close> with a slide list, every persisted
  slide should carry exactly one version: version 0, with the content at the supplied
  slide's current pointer and the instruction \<open>Initial generation\<close>, all earlier history
  erased. The code inserts that version, and stores nothing else of the supplied slide,
  but it does not erase the earlier history. Below, the session has one slide (row id 1)
  with two versions, and one slide with three versions is supplied. The slide row is
  deleted, its two version rows stay; the new slide row gets the row id 1 again, so the
  persisted slide is loaded with three versions, among them the old edit. The session
  the call returns (and caches) is the one loaded before the change, with the old
  slide.
\<close>

theorem update_session_inherits_old_versions:
  "(let d = \<lparr> session_rows = [\<lparr> sess_id = 1, sess_session_id = ''s1'', sess_topic = None,
                                  sess_template = ''professional'', sess_tone = ''professional'',
                                  sess_context_memory = None \<rparr>],
               slide_rows = [\<lparr> slide_id = 1, owner_id = 1, row_slide_number = 1,
                                row_title = ''Older'', row_content_json = [],
                                row_speaker_notes = None, row_current_version = 1 \<rparr>],
               version_rows =
                 [\<lparr> owner_slide_id = 1,
                    version_cols = \<lparr> version_number = 0, sv_title = ''Old'', sv_content_json = [''o''],
                                     sv_speaker_notes = None,
                                     sv_instruction = Some ''Initial generation'' \<rparr> \<rparr>,
                  \<lparr> owner_slide_id = 1,
                    version_cols = \<lparr> version_number = 1, sv_title = ''Older'', sv_content_json = [],
                                     sv_speaker_notes = None, sv_instruction = Some ''edit'' \<rparr> \<rparr>] \<rparr>;
        supplied = [\<lparr> h_slide_number = 1, h_current_version = 1,
                      h_versions =
                        [\<lparr> version = 0, v_title = ''A'', v_content = [''a''], v_speaker_notes = None,
                           v_instruction = Some ''Initial generation'' \<rparr>,
                         \<lparr> version = 1, v_title = ''B'', v_content = [''b''], v_speaker_notes = Some ''n'',
                           v_instruction = Some ''make it shorter'' \<rparr>,
                         \<lparr> version = 2, v_title = ''C'', v_content = [''c''], v_speaker_notes = None,
                           v_instruction = Some ''make it longer'' \<rparr>] \<rparr>];
        out = SessionManager_update_session d Map.empty ''s1'' (Some ''T'') (Some supplied)
                None None None;
        d' = fst (fst out)
    in map slide_id (slide_rows d') = [1] \<and>
       map row_title (slide_rows d') = [''B''] \<and>
       map owner_slide_id (version_rows d') = [1, 1, 1] \<and>
       map_option (map (length \<circ> versions) \<circ> slides) (get_session_by_uuid d' ''s1'') = Some [3] \<and>
       map_option (map (filter (\<lambda>v. sv_instruction v \<noteq> Some ''Initial generation'') \<circ> versions)
                     \<circ> slides) (get_session_by_uuid d' ''s1'')
         = Some [[\<lparr> version_number = 1, sv_title = ''Older'', sv_content_json = [],
                     sv_speaker_notes = None, sv_instruction = Some ''edit'' \<rparr>]] \<and>
       snd out =
         Inr (Some \<lparr> d_session_id = ''s1'', d_topic = Some ''T'', d_template = ''professional'',
                     d_tone = ''professional'',
                     d_slides =
                       [\<lparr> h_slide_number = 1, h_current_version = 1,
                          h_versions =
                            [\<lparr> version = 0, v_title = ''Old'', v_content = [''o''],
                               v_speaker_notes = None,
                               v_instruction = Some ''Initial generation'' \<rparr>,
                             \<lparr> version = 1, v_title = ''Older'', v_content = [],
                               v_speaker_notes = None, v_instruction = Some ''edit'' \<rparr>] \<rparr>],
                     d_context_memory = [] \<rparr>))"
  by (simp add: SessionManager_update_session_def select_session_row_def crud_update_session_def
      update_session_fields_def load_session_def load_slide_def delete_slides_for_session_def
      create_slide_rows_def next_rowid_def get_session_by_uuid_def db_session_to_schema_def
      db_slide_to_schema_def db_version_to_schema_def py_index_def Let_def)

lemma get_slide_absent:
  "d sid = None \<or> (\<exists>m. d sid = Some m \<and> (\<forall>s\<in>set (slides m). slide_number s \<noteq> num)) \<Longrightarrow>
   get_slide d sid num = Inr None"
  by (auto simp: get_slide_def filter_empty_conv split: option.splits list.splits)

text \<open>
  C8. \<^const>\<open>SlideService_update_slide\<close> raises the slide-not-found \<^verbatim>\<open>ValueError\<close> when the
  position \<^verbatim>\<open>slide_number - 1\<close> is outside the session's slide list, and the database is
  as before. A rollback (and the manager's append) of a slide that is absent returns
  \<^verbatim>\<open>None\<close> with the whole state as before, and so does a rollback to a version index
  that is negative or not below the number of versions.
\<close>

theorem failed_edit_changes_nothing:
  "(fst (get_session st sid) = Some session \<and>
      (num - 1 < 0 \<or> int (length (d_slides session)) \<le> num - 1) \<longrightarrow>
      snd (SlideService_update_slide regenerate_slide st sid num instruction) = Inl (SlideNotFound num) \<and>
      db (fst (SlideService_update_slide regenerate_slide st sid num instruction)) = db st) \<and>
   (db st sid = None \<or> (\<exists>m. db st sid = Some m \<and> (\<forall>s\<in>set (slides m). slide_number s \<noteq> num)) \<longrightarrow>
      SlideService_rollback_slide st sid num version_index = (st, Inr None) \<and>
      SessionManager_update_slide st sid num new_version = (st, Inr None)) \<and>
   (get_slide (db st) sid num = Inr (Some (db_session, k)) \<and>
      (version_index < 0 \<or> int (length (versions (slides db_session ! k))) \<le> version_index) \<longrightarrow>
      SlideService_rollback_slide st sid num version_index = (st, Inr None))"
proof (intro conjI impI)
  assume a: "fst (get_session st sid) = Some session \<and>
      (num - 1 < 0 \<or> int (length (d_slides session)) \<le> num - 1)"
  have g: "db (snd (get_session st sid)) = db st"
    by (simp add: get_session_def Let_def split: option.splits)
  obtain st1 where st1: "get_session st sid = (Some session, st1)"
    using a by (cases "get_session st sid") simp
  have r: "SlideService_update_slide regenerate_slide st sid num instruction = (st1, Inl (SlideNotFound num))"
    using a by (auto simp: SlideService_update_slide_def st1 Let_def)
  show "snd (SlideService_update_slide regenerate_slide st sid num instruction) = Inl (SlideNotFound num)"
    by (simp add: r)
  show "db (fst (SlideService_update_slide regenerate_slide st sid num instruction)) = db st"
    using g by (simp add: r st1)
next
  assume "db st sid = None \<or> (\<exists>m. db st sid = Some m \<and> (\<forall>s\<in>set (slides m). slide_number s \<noteq> num))"
  then have g: "get_slide (db st) sid num = Inr None"
    by (rule get_slide_absent)
  show "SlideService_rollback_slide st sid num version_index = (st, Inr None)"
    by (simp add: SlideService_rollback_slide_def SessionManager_rollback_slide_def g)
  show "SessionManager_update_slide st sid num new_version = (st, Inr None)"
    by (simp add: SessionManager_update_slide_def g)
next
  assume a: "get_slide (db st) sid num = Inr (Some (db_session, k)) \<and>
      (version_index < 0 \<or> int (length (versions (slides db_session ! k))) \<le> version_index)"
  then have "rollback_slide_version (slides db_session ! k) version_index = None"
    by (auto simp: rollback_slide_version_def)
  then show "SlideService_rollback_slide st sid num version_index = (st, Inr None)"
    using a by (simp add: SlideService_rollback_slide_def SessionManager_rollback_slide_def)
qed

theorem failed_edit_changes_nothing_witness:
  "(let session0 = \<lparr> session_id = ''s1'', topic = None, template = ''professional'',
                     tone = ''professional'', context_memory = None,
                     slides = [create_slide 1 ''A'' [''a''] None ''Initial generation''] \<rparr>;
        st = \<lparr> db = [''s1'' \<mapsto> session0], sessions = Map.empty \<rparr>;
        regen = (\<lambda>slide instruction. Inl (Raised ''not reached''))
    in snd (SlideService_update_slide regen st ''s1'' 5 ''make it shorter'') = Inl (SlideNotFound 5) \<and>
       db (fst (SlideService_update_slide regen st ''s1'' 5 ''make it shorter'')) = db st \<and>
       SlideService_rollback_slide st ''s1'' 5 0 = (st, Inr None) \<and>
       get_slide (db st) ''s1'' 1 = Inr (Some (session0, 0)) \<and>
       SlideService_rollback_slide st ''s1'' 1 7 = (st, Inr None))"
proof -
  let ?m = "\<lparr> session_id = ''s1'', topic = None, template = ''professional'',
                     tone = ''professional'', context_memory = None,
                     slides = [create_slide 1 ''A'' [''a''] None ''Initial generation''] \<rparr>"
  let ?st = "\<lparr> db = [''s1'' \<mapsto> ?m], sessions = Map.empty \<rparr>"
  let ?regen = "\<lambda>(slide :: SlideWithHistory) (instruction :: string). (Inl (Raised ''not reached'') :: exn + SlideVersion)"
  have g: "fst (get_session ?st ''s1'') = Some (db_session_to_schema ?m) \<and>
           (5 - 1 < (0::int) \<or> int (length (d_slides (db_session_to_schema ?m))) \<le> 5 - 1)"
    by (simp add: get_session_def db_session_to_schema_def Let_def)
  have absent: "db ?st ''s1'' = None \<or>
                (\<exists>m. db ?st ''s1'' = Some m \<and> (\<forall>s\<in>set (slides m). slide_number s \<noteq> 5))"
    by (simp add: create_slide_def)
  have found: "get_slide (db ?st) ''s1'' 1 = Inr (Some (?m, 0))"
    by (simp add: get_slide_def create_slide_def)
  have out: "get_slide (db ?st) ''s1'' 1 = Inr (Some (?m, 0)) \<and>
             (7 < (0::int) \<or> int (length (versions (slides ?m ! 0))) \<le> 7)"
    using found by (simp add: create_slide_def)
  note t5 = failed_edit_changes_nothing [of ?st "''s1''" "db_session_to_schema ?m" 5 ?regen
      "''make it shorter''" 0 undefined ?m 0]
  note t1 = failed_edit_changes_nothing [of ?st "''s1''" "db_session_to_schema ?m" 1 ?regen
      "''make it shorter''" 7 undefined ?m 0]
  have a: "snd (SlideService_update_slide ?regen ?st ''s1'' 5 ''make it shorter'') = Inl (SlideNotFound 5)"
       "db (fst (SlideService_update_slide ?regen ?st ''s1'' 5 ''make it shorter'')) = db ?st"
    using t5 g by blast+
  have b: "SlideService_rollback_slide ?st ''s1'' 5 0 = (?st, Inr None)"
    using t5 absent by blast
  have c: "SlideService_rollback_slide ?st ''s1'' 1 7 = (?st, Inr None)"
    using t1 out by blast
  show ?thesis
    unfolding Let_def using a b c found by blast
qed

section \<open>Properties of the provider router\<close>

lemma is_in_cooldown_fst: "fst (is_in_cooldown now r nm) = under_cooldown now r nm"
  by (simp add: is_in_cooldown_def under_cooldown_def split: option.splits)

lemma is_in_cooldown_providers: "providers (snd (is_in_cooldown now r nm)) = providers r"
  by (simp add: is_in_cooldown_def split: option.splits)

lemma is_in_cooldown_keeps:
  "under_cooldown now (snd (is_in_cooldown now r nm)) nm' = under_cooldown now r nm'"
  by (simp add: is_in_cooldown_def under_cooldown_def split: option.splits)

lemma available_from_filter:
  "fst (available_from now ks r) =
     filter (\<lambda>k. \<not> under_cooldown now r (name (providers r ! k)) \<and>
                 (status (providers r ! k) = AVAILABLE \<or> status (providers r ! k) = ERROR)) ks
   \<and> providers (snd (available_from now ks r)) = providers r"
proof (induction ks arbitrary: r)
  case Nil
  show ?case by simp
next
  case (Cons k ks)
  let ?r1 = "snd (is_in_cooldown now r (name (providers r ! k)))"
  have ih: "fst (available_from now ks ?r1) =
     filter (\<lambda>k. \<not> under_cooldown now r (name (providers r ! k)) \<and>
                 (status (providers r ! k) = AVAILABLE \<or> status (providers r ! k) = ERROR)) ks
     \<and> providers (snd (available_from now ks ?r1)) = providers r"
    using Cons.IH [of ?r1] by (simp add: is_in_cooldown_providers is_in_cooldown_keeps)
  show ?case
    using ih by (simp add: Let_def is_in_cooldown_fst)
qed

text \<open>
  What \<^const>\<open>get_available_providers\<close> computes: the positions, in priority order, of the
  providers that are not under cooldown and whose status is \<^const>\<open>AVAILABLE\<close> or
  \<^const>\<open>ERROR\<close>. A provider whose status is \<^const>\<open>RATE_LIMITED\<close> is therefore left out at
  every time, with or without a cooldown entry.
\<close>

lemma candidates_are_filtered_by_status:
  "fst (get_available_providers now r) =
     filter (\<lambda>k. \<not> under_cooldown now r (name (providers r ! k)) \<and>
                 (status (providers r ! k) = AVAILABLE \<or> status (providers r ! k) = ERROR))
       [0 ..< length (providers r)]"
  by (simp add: get_available_providers_def available_from_filter)

lemma rate_limited_never_candidate:
  "status (providers r ! k) = RATE_LIMITED \<Longrightarrow> k \<notin> set (fst (get_available_providers now r))"
  by (simp add: candidates_are_filtered_by_status)

text \<open>
  C3. The candidate list should be the configured providers that are not under
  cooldown and not unconfigured (\<^const>\<open>spec_candidates\<close>), so that a rate-limited provider
  is tried again once its cooldown of \<^const>\<open>COOLDOWN_MINUTES\<close> has passed. The code does not
  do that. In the run below Groq answers one request at time 0 with a rate limit and
  Gemini succeeds: Groq gets the status \<^const>\<open>RATE_LIMITED\<close> and a cooldown until 60.
  During the cooldown code and specification agree. After it (at 61, and a day later)
  the specification has Groq as first candidate again; the code still leaves it out,
  because nothing sets its status back.
\<close>

theorem rate_limited_provider_not_retried:
  "(let r = \<lparr> providers = [\<lparr> name = ''Groq'', status = AVAILABLE \<rparr>,
                            \<lparr> name = ''Gemini'', status = AVAILABLE \<rparr>],
               cooldowns = Map.empty \<rparr>;
        limited = \<lparr> success = False, content = [], provider_name = ''Groq'',
                    model = ''llama-3.1-8b-instant'', tokens_used = None,
                    error = Some ''Rate limit exceeded'' \<rparr>;
        good = \<lparr> success = True, content = ''hello'', provider_name = ''Gemini'',
                 model = ''gemini-2.0-flash'', tokens_used = Some 12, error = None \<rparr>;
        call = (\<lambda>p. if name p = ''Groq'' then Returns limited RATE_LIMITED
                     else Returns good AVAILABLE);
        r' = fst (snd (generate_text call 0 r))
    in fst (generate_text call 0 r) = good \<and>
       r' = \<lparr> providers = [\<lparr> name = ''Groq'', status = RATE_LIMITED \<rparr>,
                             \<lparr> name = ''Gemini'', status = AVAILABLE \<rparr>],
                cooldowns = [''Groq'' \<mapsto> 60] \<rparr> \<and>
       fst (get_available_providers 59 r') = [1] \<and>
       spec_candidates 59 r' = [1] \<and>
       fst (get_available_providers 61 r') = [1] \<and>
       spec_candidates 61 r' = [0, 1] \<and>
       fst (get_available_providers 86400 r') = [1] \<and>
       spec_candidates 86400 r' = [0, 1])"
proof -
  let ?r = "\<lparr> providers = [\<lparr> name = ''Groq'', status = AVAILABLE \<rparr>,
                            \<lparr> name = ''Gemini'', status = AVAILABLE \<rparr>],
               cooldowns = Map.empty \<rparr>"
  let ?limited = "\<lparr> success = False, content = [], provider_name = ''Groq'',
                    model = ''llama-3.1-8b-instant'', tokens_used = None,
                    error = Some ''Rate limit exceeded'' \<rparr>"
  let ?good = "\<lparr> success = True, content = ''hello'', provider_name = ''Gemini'',
                 model = ''gemini-2.0-flash'', tokens_used = Some 12, error = None \<rparr>"
  let ?call = "\<lambda>p. if name p = ''Groq'' then Returns ?limited RATE_LIMITED
                     else Returns ?good AVAILABLE"
  let ?r' = "\<lparr> providers = [\<lparr> name = ''Groq'', status = RATE_LIMITED \<rparr>,
                             \<lparr> name = ''Gemini'', status = AVAILABLE \<rparr>],
                cooldowns = [''Groq'' \<mapsto> 60] \<rparr>"
  have a: "get_available_providers 0 ?r = ([0, 1], ?r)"
    by (simp add: get_available_providers_def is_in_cooldown_def Let_def upt_rec)
  have t: "try_providers ?call 0 [0, 1] None ?r = (Inr ?good, ?r', [0, 1])"
    by (simp add: Let_def set_cooldown_def COOLDOWN_MINUTES_def)
  have g: "generate_text ?call 0 ?r = (?good, ?r', [0, 1])"
    by (simp only: generate_text_def a t Let_def fst_conv snd_conv) simp
  have c59: "fst (get_available_providers 59 ?r') = [1]"
    by (simp add: get_available_providers_def is_in_cooldown_def Let_def upt_rec)
  have c61: "fst (get_available_providers 61 ?r') = [1]"
    by (simp add: get_available_providers_def is_in_cooldown_def Let_def upt_rec)
  have cday: "fst (get_available_providers 86400 ?r') = [1]"
    by (simp add: get_available_providers_def is_in_cooldown_def Let_def upt_rec)
  have s59: "spec_candidates 59 ?r' = [1]"
    by (simp add: spec_candidates_def under_cooldown_def upt_rec)
  have s61: "spec_candidates 61 ?r' = [0, 1]"
    by (simp add: spec_candidates_def under_cooldown_def upt_rec)
  have sday: "spec_candidates 86400 ?r' = [0, 1]"
    by (simp add: spec_candidates_def under_cooldown_def upt_rec)
  show ?thesis
    unfolding Let_def g fst_conv snd_conv
    using c59 c61 cday s59 s61 sday by simp
qed

lemma set_cooldown_providers: "providers (set_cooldown now r nm) = providers r"
  by (simp add: set_cooldown_def)

lemma try_providers_failed_step:
  assumes "failed (call (providers r ! c))"
  shows "\<exists>r' le. try_providers call now (c # cs) prev r =
                   (fst (try_providers call now cs le r'),
                    fst (snd (try_providers call now cs le r')),
                    c # snd (snd (try_providers call now cs le r'))) \<and>
                 py_str le = failure_text (call (providers r ! c)) \<and>
                 (\<forall>j. j \<noteq> c \<longrightarrow> providers r' ! j = providers r ! j)"
proof (cases "call (providers r ! c)")
  case (Returns response st)
  then have "\<not> success response"
    using assms by simp
  then show ?thesis
    using Returns
    by (intro exI [of _ "if st = RATE_LIMITED
          then set_cooldown now (r \<lparr> providers := (providers r)[c := (providers r ! c) \<lparr> status := st \<rparr>] \<rparr>)
                 (name (providers r ! c))
          else r \<lparr> providers := (providers r)[c := (providers r ! c) \<lparr> status := st \<rparr>] \<rparr>"]
        exI [of _ "error response"])
      (simp add: Let_def set_cooldown_providers)
next
  case (Raises e st)
  then show ?thesis
    by (intro exI [of _ "r \<lparr> providers := (providers r)[c := (providers r ! c) \<lparr> status := st \<rparr>] \<rparr>"]
        exI [of _ "Some e"])
      (simp add: Let_def py_str_def)
qed

lemma try_providers_first_success:
  assumes "distinct cands" and "k < length cands"
    and "\<forall>j<k. failed (call (providers r ! (cands ! j)))"
    and "call (providers r ! (cands ! k)) = Returns response st" and "success response"
  shows "fst (try_providers call now cands prev r) = Inr response \<and>
         snd (snd (try_providers call now cands prev r)) = take (Suc k) cands"
  using assms
proof (induction cands arbitrary: k r prev)
  case Nil
  then show ?case by simp
next
  case (Cons c cs)
  show ?case
  proof (cases k)
    case 0
    then show ?thesis
      using Cons.prems(4,5) by (simp add: Let_def)
  next
    case (Suc k')
    have f: "failed (call (providers r ! c))"
      using Cons.prems(3) Suc by auto
    from try_providers_failed_step [where call = call and r = r and c = c and now = now and cs = cs and prev = prev, OF f]
    obtain r' le where step: "try_providers call now (c # cs) prev r =
                   (fst (try_providers call now cs le r'),
                    fst (snd (try_providers call now cs le r')),
                    c # snd (snd (try_providers call now cs le r')))"
      and same: "\<forall>j. j \<noteq> c \<longrightarrow> providers r' ! j = providers r ! j"
      by blast
    have notc: "\<forall>j<length cs. cs ! j \<noteq> c"
      using Cons.prems(1) by (auto simp: in_set_conv_nth)
    have k': "k' < length cs"
      using Cons.prems(2) Suc by simp
    have fails': "\<forall>j<k'. failed (call (providers r' ! (cs ! j)))"
    proof (intro allI impI)
      fix j assume j: "j < k'"
      then have "failed (call (providers r ! ((c # cs) ! Suc j)))"
        using Cons.prems(3) Suc by (metis Suc_less_eq)
      moreover have "cs ! j \<noteq> c"
        using notc j k' by simp
      ultimately show "failed (call (providers r' ! (cs ! j)))"
        using same by simp
    qed
    have succ': "call (providers r' ! (cs ! k')) = Returns response st"
      using Cons.prems(4) Suc same notc k' by simp
    have "distinct cs"
      using Cons.prems(1) by simp
    from Cons.IH [OF this k' fails' succ' Cons.prems(5), of le]
    show ?thesis
      unfolding step by (simp add: Suc del: try_providers.simps)
  qed
qed

lemma try_providers_all_failed:
  assumes "distinct cands" and "\<forall>c\<in>set cands. failed (call (providers r ! c))"
  shows "\<exists>le. fst (try_providers call now cands prev r) = Inl le \<and>
              (cands = [] \<longrightarrow> le = prev) \<and>
              (cands \<noteq> [] \<longrightarrow> py_str le = failure_text (call (providers r ! last cands))) \<and>
              snd (snd (try_providers call now cands prev r)) = cands"
  using assms
proof (induction cands arbitrary: r prev)
  case Nil
  show ?case by simp
next
  case (Cons c cs)
  have f: "failed (call (providers r ! c))"
    using Cons.prems(2) by simp
  from try_providers_failed_step [where call = call and r = r and c = c and now = now and cs = cs and prev = prev, OF f]
  obtain r' le where step: "try_providers call now (c # cs) prev r =
                   (fst (try_providers call now cs le r'),
                    fst (snd (try_providers call now cs le r')),
                    c # snd (snd (try_providers call now cs le r')))"
    and le: "py_str le = failure_text (call (providers r ! c))"
    and same: "\<forall>j. j \<noteq> c \<longrightarrow> providers r' ! j = providers r ! j"
    by blast
  have notc: "\<forall>x\<in>set cs. x \<noteq> c"
    using Cons.prems(1) by auto
  have fails': "\<forall>x\<in>set cs. failed (call (providers r' ! x))"
    using Cons.prems(2) same notc by simp
  have "distinct cs"
    using Cons.prems(1) by simp
  from Cons.IH [OF this fails', of le]
  obtain le' where r: "fst (try_providers call now cs le r') = Inl le'"
    and e: "cs = [] \<longrightarrow> le' = le"
    and n: "cs \<noteq> [] \<longrightarrow> py_str le' = failure_text (call (providers r' ! last cs))"
    and c: "snd (snd (try_providers call now cs le r')) = cs"
    by blast
  have "py_str le' = failure_text (call (providers r ! last (c # cs)))"
  proof (cases "cs = []")
    case True
    then show ?thesis using e le by simp
  next
    case False
    then have "last cs \<in> set cs" by simp
    then have "last cs \<noteq> c" using notc by blast
    then show ?thesis using n False same by simp
  qed
  then show ?case
    unfolding step using r c by (simp del: try_providers.simps)
qed

lemma available_distinct: "distinct (fst (get_available_providers now r))"
  by (simp add: get_available_providers_def available_from_filter)

lemma available_providers_same: "providers (snd (get_available_providers now r)) = providers r"
  by (simp add: get_available_providers_def available_from_filter)

text \<open>
  C2. When the candidates before position k of the candidate list fail and candidate k
  returns a successful response, \<^const>\<open>generate_text\<close> (and \<^const>\<open>generate_json\<close>) return
  that response as it is, and the providers called are the candidates up to k and none
  after it.
\<close>

theorem first_success_wins:
  assumes "k < length (fst (get_available_providers now r))"
    and "\<forall>j<k. failed (call (providers r ! (fst (get_available_providers now r) ! j)))"
    and "call (providers r ! (fst (get_available_providers now r) ! k)) = Returns response st"
    and "success response"
  shows "fst (generate_text call now r) = response \<and>
         snd (snd (generate_text call now r)) = take (Suc k) (fst (get_available_providers now r)) \<and>
         fst (generate_json call now r) = response \<and>
         snd (snd (generate_json call now r)) = take (Suc k) (fst (get_available_providers now r))"
proof -
  let ?cands = "fst (get_available_providers now r)"
  let ?r1 = "snd (get_available_providers now r)"
  have ne: "?cands \<noteq> []"
    using assms(1) by auto
  have t: "fst (try_providers call now ?cands None ?r1) = Inr response \<and>
           snd (snd (try_providers call now ?cands None ?r1)) = take (Suc k) ?cands"
    using assms
    by (intro try_providers_first_success [where st = st])
       (simp_all add: available_distinct available_providers_same)
  show ?thesis
    using ne t by (simp add: generate_text_def generate_json_def Let_def)
qed

theorem first_success_wins_witness:
  "(let r = \<lparr> providers = [\<lparr> name = ''Groq'', status = AVAILABLE \<rparr>,
                            \<lparr> name = ''Gemini'', status = AVAILABLE \<rparr>,
                            \<lparr> name = ''Other'', status = AVAILABLE \<rparr>],
               cooldowns = Map.empty \<rparr>;
        limited = \<lparr> success = False, content = [], provider_name = ''Groq'',
                    model = ''llama-3.1-8b-instant'', tokens_used = None,
                    error = Some ''Rate limit exceeded'' \<rparr>;
        good = \<lparr> success = True, content = ''hello'', provider_name = ''Gemini'',
                 model = ''gemini-2.0-flash'', tokens_used = Some 12, error = None \<rparr>;
        call = (\<lambda>p. if name p = ''Groq'' then Returns limited RATE_LIMITED
                     else Returns good AVAILABLE)
    in fst (get_available_providers 0 r) = [0, 1, 2] \<and>
       failed (call (providers r ! 0)) \<and>
       call (providers r ! 1) = Returns good AVAILABLE \<and> success good \<and>
       fst (generate_text call 0 r) = good \<and>
       snd (snd (generate_text call 0 r)) = [0, 1])"
proof -
  let ?r = "\<lparr> providers = [\<lparr> name = ''Groq'', status = AVAILABLE \<rparr>,
                            \<lparr> name = ''Gemini'', status = AVAILABLE \<rparr>,
                            \<lparr> name = ''Other'', status = AVAILABLE \<rparr>],
               cooldowns = Map.empty \<rparr>"
  let ?limited = "\<lparr> success = False, content = [], provider_name = ''Groq'',
                    model = ''llama-3.1-8b-instant'', tokens_used = None,
                    error = Some ''Rate limit exceeded'' \<rparr>"
  let ?good = "\<lparr> success = True, content = ''hello'', provider_name = ''Gemini'',
                 model = ''gemini-2.0-flash'', tokens_used = Some 12, error = None \<rparr>"
  let ?call = "\<lambda>p. if name p = ''Groq'' then Returns ?limited RATE_LIMITED
                     else Returns ?good AVAILABLE"
  have cands: "fst (get_available_providers 0 ?r) = [0, 1, 2]"
    by (simp add: get_available_providers_def is_in_cooldown_def Let_def upt_rec)
  have k: "1 < length (fst (get_available_providers 0 ?r))"
    by (simp add: cands)
  have f: "\<forall>j<1. failed (?call (providers ?r ! (fst (get_available_providers 0 ?r) ! j)))"
    by (simp add: cands)
  have s: "?call (providers ?r ! (fst (get_available_providers 0 ?r) ! 1)) = Returns ?good AVAILABLE"
    by (simp add: cands)
  have g: "success ?good"
    by simp
  have "fst (generate_text ?call 0 ?r) = ?good \<and>
        snd (snd (generate_text ?call 0 ?r)) = [0, 1]"
    using first_success_wins [OF k f s g] by (simp add: cands)
  then show ?thesis
    unfolding Let_def using cands by simp
qed

text \<open>
  C9. When the candidate list is not empty and every candidate fails (by raising, or by
  a response without success, rate-limited or not), \<^const>\<open>generate_text\<close> and
  \<^const>\<open>generate_json\<close> return a failure whose provider name is \<open>none\<close> and whose error
  text ends with the error of the last candidate.
\<close>

theorem all_failed_reports_last_error:
  assumes "fst (get_available_providers now r) \<noteq> []"
    and "\<forall>k\<in>set (fst (get_available_providers now r)). failed (call (providers r ! k))"
  shows "fst (generate_text call now r) =
           \<lparr> success = False, content = [], provider_name = ''none'', model = ''none'',
             tokens_used = None,
             error = Some (''All providers failed. Last error: '' @
                      failure_text (call (providers r ! last (fst (get_available_providers now r))))) \<rparr> \<and>
         fst (generate_json call now r) =
           \<lparr> success = False, content = [], provider_name = ''none'', model = ''none'',
             tokens_used = None,
             error = Some (''All providers failed for JSON generation. Last error: '' @
                      failure_text (call (providers r ! last (fst (get_available_providers now r))))) \<rparr>"
proof -
  let ?cands = "fst (get_available_providers now r)"
  let ?r1 = "snd (get_available_providers now r)"
  have "\<forall>k\<in>set ?cands. failed (call (providers ?r1 ! k))"
    using assms(2) by (simp add: available_providers_same)
  from try_providers_all_failed [OF available_distinct this, of now None]
  obtain le where r: "fst (try_providers call now ?cands None ?r1) = Inl le"
    and e: "py_str le = failure_text (call (providers r ! last ?cands))"
    using assms(1) by (auto simp: available_providers_same)
  show ?thesis
    using assms(1) r e
    by (simp add: generate_text_def generate_json_def Let_def no_provider_response_def)
qed

theorem all_failed_reports_last_error_witness:
  "(let r = \<lparr> providers = [\<lparr> name = ''Groq'', status = AVAILABLE \<rparr>,
                            \<lparr> name = ''Gemini'', status = ERROR \<rparr>],
               cooldowns = Map.empty \<rparr>;
        limited = \<lparr> success = False, content = [], provider_name = ''Groq'',
                    model = ''llama-3.1-8b-instant'', tokens_used = None,
                    error = Some ''Rate limit exceeded'' \<rparr>;
        call = (\<lambda>p. if name p = ''Groq'' then Returns limited RATE_LIMITED
                     else Raises ''connection reset'' ERROR)
    in fst (get_available_providers 0 r) = [0, 1] \<and>
       failed (call (providers r ! 0)) \<and> failed (call (providers r ! 1)) \<and>
       provider_name (fst (generate_text call 0 r)) = ''none'' \<and>
       \<not> success (fst (generate_text call 0 r)) \<and>
       error (fst (generate_text call 0 r)) =
         Some ''All providers failed. Last error: connection reset'' \<and>
       error (fst (generate_json call 0 r)) =
         Some ''All providers failed for JSON generation. Last error: connection reset'')"
proof -
  let ?r = "\<lparr> providers = [\<lparr> name = ''Groq'', status = AVAILABLE \<rparr>,
                            \<lparr> name = ''Gemini'', status = ERROR \<rparr>],
               cooldowns = Map.empty \<rparr>"
  let ?limited = "\<lparr> success = False, content = [], provider_name = ''Groq'',
                    model = ''llama-3.1-8b-instant'', tokens_used = None,
                    error = Some ''Rate limit exceeded'' \<rparr>"
  let ?call = "\<lambda>p. if name p = ''Groq'' then Returns ?limited RATE_LIMITED
                     else Raises ''connection reset'' ERROR"
  have cands: "fst (get_available_providers 0 ?r) = [0, 1]"
    by (simp add: get_available_providers_def is_in_cooldown_def Let_def upt_rec)
  have ne: "fst (get_available_providers 0 ?r) \<noteq> []"
    by (simp add: cands)
  have f: "\<forall>k\<in>set (fst (get_available_providers 0 ?r)). failed (?call (providers ?r ! k))"
    by (simp add: cands)
  note t = all_failed_reports_last_error [OF ne f]
  have l: "failure_text (?call (providers ?r ! last (fst (get_available_providers 0 ?r)))) =
           ''connection reset''"
    by (simp add: cands)
  show ?thesis
    unfolding Let_def using t cands unfolding l by simp
qed

section \<open>Properties of the JSON mode\<close>

lemma strip_padded:
  assumes "list_all isspace ws1" and "list_all isspace ws2"
    and "x \<noteq> []" and "\<not> isspace (hd x)" and "\<not> isspace (last x)"
  shows "strip (ws1 @ x @ ws2) = x"
proof -
  have a: "dropWhile isspace (ws1 @ x @ ws2) = x @ ws2"
    using assms(1,3,4) by (cases x) (simp_all add: dropWhile_append2 list_all_iff)
  have "dropWhile isspace (rev ws2 @ rev x) = dropWhile isspace (rev x)"
  proof (rule dropWhile_append2)
    fix ch assume "ch \<in> set (rev ws2)"
    then show "isspace ch"
      using assms(2) by (simp add: list_all_iff)
  qed
  also have "\<dots> = rev x"
    using assms(3,5) by (cases x rule: rev_cases) simp_all
  finally show ?thesis
    by (simp add: strip_def a)
qed

lemma short_list:
  "length xs < 4 \<Longrightarrow>
   xs = [] \<or> (\<exists>a. xs = [a]) \<or> (\<exists>a b. xs = [a, b]) \<or> (\<exists>a b c. xs = [a, b, c])"
  by (cases xs; cases "tl xs"; cases "tl (tl xs)"; cases "tl (tl (tl xs))") auto

lemma backtick_not_space: "\<not> isspace CHR ''`''"
  by (simp add: isspace_def)

lemma fence_tail:
  assumes "\<not> startswith body ''```''"
  shows "(let c1 = body @ ''```'';
              c2 = (if startswith c1 ''```'' then drop 3 c1 else c1)
          in if endswith c2 ''```'' then take (length c2 - 3) c2 else c2) = body"
proof (cases "length body < 4")
  case True
  from short_list [OF this] assms show ?thesis
    by (auto simp: startswith_def endswith_def Let_def)
next
  case False
  then have "take 3 (body @ ''```'') = take 3 body"
    by simp
  then have "\<not> startswith (body @ ''```'') ''```''"
    using assms by (simp add: startswith_def)
  then show ?thesis
    by (simp add: Let_def endswith_def)
qed

lemma clean_json_fenced:
  assumes "list_all isspace ws1" and "list_all isspace ws2" and "\<not> startswith body ''```''"
  shows "clean_json_content (ws1 @ ''```json'' @ body @ ''```'' @ ws2) = strip body"
proof -
  have "strip (ws1 @ (''```json'' @ body @ ''```'') @ ws2) = ''```json'' @ body @ ''```''"
    using assms(1,2) by (intro strip_padded) (simp_all add: backtick_not_space)
  then have c0: "strip (ws1 @ ''```json'' @ body @ ''```'' @ ws2) = ''```json'' @ body @ ''```''"
    by simp
  have s: "startswith (''```json'' @ body @ ''```'') ''```json''"
    by (simp add: startswith_def)
  have d: "drop 7 (''```json'' @ body @ ''```'') = body @ ''```''"
    by simp
  show ?thesis
    unfolding clean_json_content_def c0 Let_def
    using fence_tail [OF assms(3)] by (simp only: s d if_True Let_def)
qed

lemma clean_json_plain_fence:
  assumes "list_all isspace ws1" and "list_all isspace ws2" and "\<not> startswith body ''json''"
  shows "clean_json_content (ws1 @ ''```'' @ body @ ''```'' @ ws2) = strip body"
proof -
  have "strip (ws1 @ (''```'' @ body @ ''```'') @ ws2) = ''```'' @ body @ ''```''"
    using assms(1,2) by (intro strip_padded) (simp_all add: backtick_not_space)
  then have c0: "strip (ws1 @ ''```'' @ body @ ''```'' @ ws2) = ''```'' @ body @ ''```''"
    by simp
  have n: "\<not> startswith (''```'' @ body @ ''```'') ''```json''"
  proof (cases "length body < 4")
    case True
    from short_list [OF this] assms(3) show ?thesis
      by (auto simp: startswith_def)
  next
    case False
    then show ?thesis
      using assms(3) by (simp add: startswith_def)
  qed
  have s: "startswith (''```'' @ body @ ''```'') ''```''"
    by (simp add: startswith_def)
  show ?thesis
    unfolding clean_json_content_def c0 Let_def
    using n s by (simp add: endswith_def)
qed

lemma strip_ends:
  assumes "strip s \<noteq> []"
  shows "\<not> isspace (hd (strip s)) \<and> \<not> isspace (last (strip s))"
proof -
  let ?t = "dropWhile isspace s"
  let ?u = "dropWhile isspace (rev ?t)"
  have u: "?u \<noteq> []"
    using assms by (simp add: strip_def)
  then have t: "?t \<noteq> []"
    by (metis dropWhile.simps(1) rev.simps(1))
  have "last ?u = last (takeWhile isspace (rev ?t) @ ?u)"
    using last_appendR [OF u, of "takeWhile isspace (rev ?t)"] by (rule sym)
  then have "last ?u = hd ?t"
    using t by (simp add: last_rev)
  then have h: "\<not> isspace (last ?u)"
    using t hd_dropWhile [of isspace s] by simp
  have l: "\<not> isspace (hd ?u)"
    using u by (rule hd_dropWhile)
  show ?thesis
    using u h l by (simp add: strip_def hd_rev last_rev)
qed

lemma strip_strip: "strip (strip s) = strip s"
proof (cases "strip s = []")
  case True
  show ?thesis unfolding True by (simp add: strip_def)
next
  case False
  from strip_padded [of "[]" "[]" "strip s"] False strip_ends [OF False]
  show ?thesis by simp
qed

lemma clean_json_unfenced:
  assumes "\<not> startswith (strip raw) ''```''" and "\<not> endswith (strip raw) ''```''"
  shows "clean_json_content raw = strip raw"
proof -
  have "\<not> startswith (strip raw) ''```json''"
    using assms(1) by (auto simp: startswith_def dest: arg_cong [where f = "take 3"])
  then show ?thesis
    using assms by (simp add: clean_json_content_def Let_def strip_strip)
qed

lemma clean_json_after_leading:
  assumes "strip raw = ''```json'' @ ''```'' @ x \<or>
           (strip raw = ''```json'' @ x \<and> \<not> startswith x ''```'') \<or>
           (strip raw = ''```'' @ x \<and> \<not> startswith x ''json'') \<or>
           (strip raw = x \<and> \<not> startswith x ''```'')"
  shows "clean_json_content raw =
           strip (if endswith x ''```'' then take (length x - 3) x else x)"
proof -
  consider (a) "strip raw = ''```json'' @ ''```'' @ x"
    | (b) "strip raw = ''```json'' @ x" "\<not> startswith x ''```''"
    | (c) "strip raw = ''```'' @ x" "\<not> startswith x ''json''"
    | (d) "strip raw = x" "\<not> startswith x ''```''"
    using assms by blast
  then show ?thesis
  proof cases
    case a
    then show ?thesis
      by (simp add: clean_json_content_def startswith_def Let_def)
  next
    case b
    then show ?thesis
      by (simp add: clean_json_content_def startswith_def Let_def)
  next
    case c
    then show ?thesis
      by (simp add: clean_json_content_def startswith_def Let_def)
  next
    case d
    have "\<not> startswith x ''```json''"
      using d(2) by (auto simp: startswith_def dest: arg_cong [where f = "take 3"])
    then show ?thesis
      using d by (simp add: clean_json_content_def Let_def)
  qed
qed

lemma startswith_split: "startswith s p \<Longrightarrow> s = p @ drop (length p) s"
  by (metis append_take_drop_id startswith_def)

lemma leading_shape_exists:
  "\<exists>z. s = ''```json'' @ ''```'' @ z \<or>
       (s = ''```json'' @ z \<and> \<not> startswith z ''```'') \<or>
       (s = ''```'' @ z \<and> \<not> startswith z ''json'') \<or>
       (s = z \<and> \<not> startswith z ''```'')"
proof (cases "startswith s ''```json''")
  case True
  then obtain t where s: "s = ''```json'' @ t"
    using startswith_split by blast
  show ?thesis
  proof (cases "startswith t ''```''")
    case True
    then obtain u where "t = ''```'' @ u"
      using startswith_split by blast
    with s have "s = ''```json'' @ ''```'' @ u"
      by simp
    then show ?thesis by blast
  next
    case False
    with s show ?thesis by blast
  qed
next
  case nj: False
  show ?thesis
  proof (cases "startswith s ''```''")
    case True
    then obtain t where s: "s = ''```'' @ t"
      using startswith_split by blast
    have "\<not> startswith t ''json''"
      using nj unfolding s by (simp add: startswith_def)
    with s show ?thesis by blast
  next
    case False
    then show ?thesis by blast
  qed
qed

lemma endswith_iff: "endswith x p \<longleftrightarrow> (\<exists>y. x = y @ p)"
proof
  assume "endswith x p"
  then have "x = take (length x - length p) x @ p"
    by (metis append_take_drop_id endswith_def)
  then show "\<exists>y. x = y @ p" ..
next
  assume "\<exists>y. x = y @ p"
  then show "endswith x p"
    by (auto simp: endswith_def)
qed

text \<open>
  C4. The clean-up, for every text. The stripped text has exactly one of four leading
  shapes: \<^verbatim>\<open>```json\<close> followed by \<^verbatim>\<open>```\<close> (both are dropped), \<^verbatim>\<open>```json\<close> alone, \<^verbatim>\<open>```\<close> alone,
  or no leading marker; what follows the dropped markers is \<open>x\<close>. When \<open>x\<close> ends with
  \<^verbatim>\<open>```\<close> that marker is dropped too. The cleaned text is what is left, stripped again. So
  a leading marker is removed whether or not a trailing one is present, and the other way
  round. In particular a text fenced by \<^verbatim>\<open>```json\<close> or \<^verbatim>\<open>```\<close> and \<^verbatim>\<open>```\<close>, with whitespace
  around, is cleaned to its stripped body, and a text without markers to its stripped
  self. For a successful provider response: when the cleaned text parses,
  \<^const>\<open>provider_generate_json\<close> returns the response with the cleaned text as content,
  still a success; when it does not parse, it returns the response as a failure with
  the error \<open>Invalid JSON response: \<close> followed by the parser's message.
\<close>

theorem json_mode_cleans_and_validates:
  "(list_all isspace ws1 \<and> list_all isspace ws2 \<and> \<not> startswith body ''```'' \<longrightarrow>
      clean_json_content (ws1 @ ''```json'' @ body @ ''```'' @ ws2) = strip body) \<and>
   (list_all isspace ws1 \<and> list_all isspace ws2 \<and> \<not> startswith body ''json'' \<longrightarrow>
      clean_json_content (ws1 @ ''```'' @ body @ ''```'' @ ws2) = strip body) \<and>
   (\<not> startswith (strip raw) ''```'' \<and> \<not> endswith (strip raw) ''```'' \<longrightarrow>
      clean_json_content raw = strip raw) \<and>
   (\<exists>z. strip raw = ''```json'' @ ''```'' @ z \<or>
        (strip raw = ''```json'' @ z \<and> \<not> startswith z ''```'') \<or>
        (strip raw = ''```'' @ z \<and> \<not> startswith z ''json'') \<or>
        (strip raw = z \<and> \<not> startswith z ''```'')) \<and>
   (strip raw = ''```json'' @ ''```'' @ x \<or>
    (strip raw = ''```json'' @ x \<and> \<not> startswith x ''```'') \<or>
    (strip raw = ''```'' @ x \<and> \<not> startswith x ''json'') \<or>
    (strip raw = x \<and> \<not> startswith x ''```'') \<longrightarrow>
      (x = y @ ''```'' \<longrightarrow> clean_json_content raw = strip y) \<and>
      (\<not> endswith x ''```'' \<longrightarrow> clean_json_content raw = strip x) \<and>
      (endswith x ''```'' \<longrightarrow> (\<exists>y'. x = y' @ ''```''))) \<and>
   (success response \<and> json_loads (clean_json_content (content response)) = None \<longrightarrow>
      provider_generate_json json_loads response =
        response \<lparr> content := clean_json_content (content response) \<rparr> \<and>
      success (provider_generate_json json_loads response)) \<and>
   (success response \<and> json_loads (clean_json_content (content response)) = Some e \<longrightarrow>
      provider_generate_json json_loads response =
        response \<lparr> success := False, error := Some (''Invalid JSON response: '' @ e) \<rparr> \<and>
      \<not> success (provider_generate_json json_loads response))"
proof (intro conjI impI)
  assume "list_all isspace ws1 \<and> list_all isspace ws2 \<and> \<not> startswith body ''```''"
  then show "clean_json_content (ws1 @ ''```json'' @ body @ ''```'' @ ws2) = strip body"
    by (intro clean_json_fenced) simp_all
next
  assume "list_all isspace ws1 \<and> list_all isspace ws2 \<and> \<not> startswith body ''json''"
  then show "clean_json_content (ws1 @ ''```'' @ body @ ''```'' @ ws2) = strip body"
    by (intro clean_json_plain_fence) simp_all
next
  assume "\<not> startswith (strip raw) ''```'' \<and> \<not> endswith (strip raw) ''```''"
  then show "clean_json_content raw = strip raw"
    by (intro clean_json_unfenced) simp_all
next
  show "\<exists>z. strip raw = ''```json'' @ ''```'' @ z \<or>
        (strip raw = ''```json'' @ z \<and> \<not> startswith z ''```'') \<or>
        (strip raw = ''```'' @ z \<and> \<not> startswith z ''json'') \<or>
        (strip raw = z \<and> \<not> startswith z ''```'')"
    by (rule leading_shape_exists)
next
  assume sh: "strip raw = ''```json'' @ ''```'' @ x \<or>
    (strip raw = ''```json'' @ x \<and> \<not> startswith x ''```'') \<or>
    (strip raw = ''```'' @ x \<and> \<not> startswith x ''json'') \<or>
    (strip raw = x \<and> \<not> startswith x ''```'')"
  note c = clean_json_after_leading [OF sh]
  show "clean_json_content raw = strip y" if "x = y @ ''```''"
    using c that by (simp add: endswith_def)
  show "clean_json_content raw = strip x" if "\<not> endswith x ''```''"
    using c that by simp
  show "\<exists>y'. x = y' @ ''```''" if "endswith x ''```''"
    using that by (simp add: endswith_iff)
next
  assume a: "success response \<and> json_loads (clean_json_content (content response)) = None"
  then show "provider_generate_json json_loads response =
        response \<lparr> content := clean_json_content (content response) \<rparr>"
    by (simp add: provider_generate_json_def Let_def)
  with a show "success (provider_generate_json json_loads response)"
    by simp
next
  assume a: "success response \<and> json_loads (clean_json_content (content response)) = Some e"
  then show "provider_generate_json json_loads response =
        response \<lparr> success := False, error := Some (''Invalid JSON response: '' @ e) \<rparr>"
    by (simp add: provider_generate_json_def Let_def)
  then show "\<not> success (provider_generate_json json_loads response)"
    by simp
qed

theorem json_mode_cleans_and_validates_witness:
  "(let loads = (\<lambda>s. if s = ''[1, 2]'' then None
                      else Some ''Expecting value: line 1 column 1 (char 0)'');
        fenced = \<lparr> success = True,
                   content = ''  ```json'' @ [CHR 0x0A] @ ''[1, 2]'' @ [CHR 0x0A] @ ''```'' @ [CHR 0x0A],
                   provider_name = ''Groq'', model = ''llama-3.1-8b-instant'',
                   tokens_used = Some 7, error = None \<rparr>;
        padded = fenced \<lparr> content := [CHR 0xA0] @ ''[1, 2]'' @ [CHR 0xA0] \<rparr>;
        prose = fenced \<lparr> content := ''Sure, here it is'' \<rparr>
    in clean_json_content (content fenced) = ''[1, 2]'' \<and>
       clean_json_content (''```'' @ [CHR 0x0A] @ ''[1, 2]'' @ ''```'') = ''[1, 2]'' \<and>
       clean_json_content '' [1, 2] '' = ''[1, 2]'' \<and>
       clean_json_content (''```json'' @ [CHR 0x0A] @ ''[1, 2]'') = ''[1, 2]'' \<and>
       clean_json_content (''```'' @ ''[1, 2]'') = ''[1, 2]'' \<and>
       clean_json_content (''[1, 2]'' @ [CHR 0x0A] @ ''```'') = ''[1, 2]'' \<and>
       clean_json_content (''```json'' @ ''```'' @ ''[1, 2]'') = ''[1, 2]'' \<and>
       provider_generate_json loads fenced = fenced \<lparr> content := ''[1, 2]'' \<rparr> \<and>
       provider_generate_json loads padded = padded \<lparr> content := ''[1, 2]'' \<rparr> \<and>
       provider_generate_json loads prose =
         prose \<lparr> success := False,
                  error := Some ''Invalid JSON response: Expecting value: line 1 column 1 (char 0)'' \<rparr>)"
proof -
  let ?loads = "\<lambda>s. if s = ''[1, 2]'' then None
                      else Some ''Expecting value: line 1 column 1 (char 0)''"
  let ?fenced = "\<lparr> success = True,
                   content = ''  ```json'' @ [CHR 0x0A] @ ''[1, 2]'' @ [CHR 0x0A] @ ''```'' @ [CHR 0x0A],
                   provider_name = ''Groq'', model = ''llama-3.1-8b-instant'',
                   tokens_used = Some 7, error = None \<rparr>"
  let ?padded = "?fenced \<lparr> content := [CHR 0xA0] @ ''[1, 2]'' @ [CHR 0xA0] \<rparr>"
  let ?prose = "?fenced \<lparr> content := ''Sure, here it is'' \<rparr>"
  let ?msg = "''Expecting value: line 1 column 1 (char 0)''"
  note t1 = json_mode_cleans_and_validates [where ?ws1.0 = "''  ''" and ?ws2.0 = "[CHR 0x0A]"
      and body = "[CHR 0x0A] @ ''[1, 2]'' @ [CHR 0x0A]" and raw = "'' [1, 2] ''"
      and response = ?fenced and json_loads = ?loads and e = ?msg]
  note t2 = json_mode_cleans_and_validates [where ?ws1.0 = "[]" and ?ws2.0 = "[]"
      and body = "[CHR 0x0A] @ ''[1, 2]''" and raw = "''Sure, here it is''"
      and response = ?prose and json_loads = ?loads and e = ?msg]
  note t3 = json_mode_cleans_and_validates [where raw = "[CHR 0xA0] @ ''[1, 2]'' @ [CHR 0xA0]"
      and response = ?padded and json_loads = ?loads and e = ?msg]
  note lead_json = json_mode_cleans_and_validates [where raw = "''```json'' @ [CHR 0x0A] @ ''[1, 2]''"
      and x = "[CHR 0x0A] @ ''[1, 2]''"]
  note lead_plain = json_mode_cleans_and_validates [where raw = "''```'' @ ''[1, 2]''"
      and x = "''[1, 2]''"]
  note trail = json_mode_cleans_and_validates [where raw = "''[1, 2]'' @ [CHR 0x0A] @ ''```''"
      and x = "''[1, 2]'' @ [CHR 0x0A] @ ''```''" and y = "''[1, 2]'' @ [CHR 0x0A]"]
  note stacked = json_mode_cleans_and_validates [where raw = "''```json'' @ ''```'' @ ''[1, 2]''"
      and x = "''[1, 2]''"]
  have ws: "list_all isspace ''  ''" "list_all isspace [CHR 0x0A]" "list_all isspace []"
    by (simp_all add: isspace_def)
  have b: "\<not> startswith ([CHR 0x0A] @ ''[1, 2]'' @ [CHR 0x0A]) ''```''"
          "\<not> startswith ([CHR 0x0A] @ ''[1, 2]'') ''json''"
          "\<not> startswith ([CHR 0x0A] @ ''[1, 2]'') ''```''"
          "\<not> startswith ''[1, 2]'' ''json''" "\<not> startswith ''[1, 2]'' ''```''"
          "\<not> startswith (''[1, 2]'' @ [CHR 0x0A] @ ''```'') ''```''"
          "\<not> endswith ([CHR 0x0A] @ ''[1, 2]'') ''```''" "\<not> endswith ''[1, 2]'' ''```''"
    by (simp_all add: startswith_def endswith_def)
  have s1: "strip ([CHR 0x0A] @ ''[1, 2]'' @ [CHR 0x0A]) = ''[1, 2]''"
           "strip ([CHR 0x0A] @ ''[1, 2]'') = ''[1, 2]''"
           "strip '' [1, 2] '' = ''[1, 2]''"
           "strip ''Sure, here it is'' = ''Sure, here it is''"
           "strip ([CHR 0xA0] @ ''[1, 2]'' @ [CHR 0xA0]) = ''[1, 2]''"
           "strip (''[1, 2]'' @ [CHR 0x0A]) = ''[1, 2]''"
           "strip ''[1, 2]'' = ''[1, 2]''"
    by (simp_all add: strip_def isspace_def)
  have s2: "strip (''```json'' @ [CHR 0x0A] @ ''[1, 2]'') = ''```json'' @ [CHR 0x0A] @ ''[1, 2]''"
           "strip (''```'' @ ''[1, 2]'') = ''```'' @ ''[1, 2]''"
           "strip (''[1, 2]'' @ [CHR 0x0A] @ ''```'') = ''[1, 2]'' @ [CHR 0x0A] @ ''```''"
           "strip (''```json'' @ ''```'' @ ''[1, 2]'') = ''```json'' @ ''```'' @ ''[1, 2]''"
    by (simp_all add: strip_def isspace_def)
  have c1: "clean_json_content (content ?fenced) = ''[1, 2]''"
    using t1 ws b(1) s1(1) by simp
  have c2: "clean_json_content (''```'' @ [CHR 0x0A] @ ''[1, 2]'' @ ''```'') = ''[1, 2]''"
    using t2 ws(3) b(2) s1(2) by simp
  have u: "\<not> startswith (strip '' [1, 2] '') ''```'' \<and> \<not> endswith (strip '' [1, 2] '') ''```''"
          "\<not> startswith (strip ''Sure, here it is'') ''```'' \<and>
           \<not> endswith (strip ''Sure, here it is'') ''```''"
          "\<not> startswith (strip ([CHR 0xA0] @ ''[1, 2]'' @ [CHR 0xA0])) ''```'' \<and>
           \<not> endswith (strip ([CHR 0xA0] @ ''[1, 2]'' @ [CHR 0xA0])) ''```''"
    unfolding s1 by (simp_all add: startswith_def endswith_def)
  have c3: "clean_json_content '' [1, 2] '' = ''[1, 2]''"
    using t1 u(1) s1(3) by simp
  have c4: "clean_json_content (content ?prose) = ''Sure, here it is''"
    using t2 u(2) s1(4) by simp
  have c5: "clean_json_content (content ?padded) = ''[1, 2]''"
    using t3 u(3) s1(5) by simp
  have "clean_json_content (''```json'' @ [CHR 0x0A] @ ''[1, 2]'') = strip ([CHR 0x0A] @ ''[1, 2]'')"
    using lead_json s2(1) b(3) b(7) by blast
  then have c6: "clean_json_content (''```json'' @ [CHR 0x0A] @ ''[1, 2]'') = ''[1, 2]''"
    by (simp only: s1)
  have "clean_json_content (''```'' @ ''[1, 2]'') = strip ''[1, 2]''"
    using lead_plain s2(2) b(4) b(8) by blast
  then have c7: "clean_json_content (''```'' @ ''[1, 2]'') = ''[1, 2]''"
    by (simp only: s1)
  have "clean_json_content (''[1, 2]'' @ [CHR 0x0A] @ ''```'') = strip (''[1, 2]'' @ [CHR 0x0A])"
  proof -
    have "''[1, 2]'' @ [CHR 0x0A] @ ''```'' = (''[1, 2]'' @ [CHR 0x0A]) @ ''```''"
      by simp
    then show ?thesis
      using trail s2(3) b(6) by blast
  qed
  then have c8: "clean_json_content (''[1, 2]'' @ [CHR 0x0A] @ ''```'') = ''[1, 2]''"
    by (simp only: s1)
  have "clean_json_content (''```json'' @ ''```'' @ ''[1, 2]'') = strip ''[1, 2]''"
    using stacked s2(4) b(8) by blast
  then have c9: "clean_json_content (''```json'' @ ''```'' @ ''[1, 2]'') = ''[1, 2]''"
    by (simp only: s1)
  have p1: "provider_generate_json ?loads ?fenced = ?fenced \<lparr> content := ''[1, 2]'' \<rparr>"
    using t1 c1 by simp
  have p2: "provider_generate_json ?loads ?prose =
         ?prose \<lparr> success := False,
                  error := Some ''Invalid JSON response: Expecting value: line 1 column 1 (char 0)'' \<rparr>"
    using t2 c4 by simp
  have p3: "provider_generate_json ?loads ?padded = ?padded \<lparr> content := ''[1, 2]'' \<rparr>"
    using t3 c5 by simp
  show ?thesis
    unfolding Let_def using c1 c2 c3 c6 c7 c8 c9 p1 p2 p3 by blast
qed


section \<open>Properties of the job manager\<close>

lemma update_twice:
  "update_job_progress (update_job_progress m jid p msg) jid p' msg' =
   update_job_progress m jid p' msg'"
  by (simp add: update_job_progress_def split: option.splits)

lemma run_reports_last:
  "run_reports xs jid m =
     (if xs = [] then m else update_job_progress m jid (fst (last xs)) (snd (last xs)))"
  by (induction xs arbitrary: m) (simp_all add: update_twice)

lemma execute_job_other: "j \<noteq> jid \<Longrightarrow> jobs (execute_job m j) jid = jobs m jid"
  by (simp add: execute_job_def modify_job_def update_job_progress_def run_reports_last Let_def
      split: option.splits task_end.splits)

lemma execute_job_absent: "jobs m jid = None \<Longrightarrow> jobs (execute_job m j) jid = None"
  by (cases "j = jid") (simp_all add: execute_job_other, simp add: execute_job_def)

lemma execute_job_done:
  assumes "jobs m jid = Some job"
  shows "\<exists>job'. jobs (execute_job m jid) jid = Some job' \<and> task_func job' = task_func job \<and>
           (job_status job' = COMPLETED \<or> job_status job' = FAILED) \<and>
           (\<forall>f v. task_func job = Some f \<and> task_end f = TaskReturns v \<longrightarrow>
                  job_status job' = COMPLETED \<and> progress job' = 100) \<and>
           (\<forall>f e. task_func job = Some f \<and> task_end f = TaskRaises e \<longrightarrow>
                  job_status job' = FAILED \<and> job_error job' = Some e)"
  using assms
  by (auto simp: execute_job_def modify_job_def update_job_progress_def run_reports_last Let_def
      split: option.splits task_end.splits)

lemma consume_other: "jid \<notin> set q \<Longrightarrow> jobs (consume q m) jid = jobs m jid"
  by (induction q arbitrary: m) (auto simp: execute_job_other split: option.splits)

lemma consume_absent: "jobs m jid = None \<Longrightarrow> jobs (consume q m) jid = None"
  by (induction q arbitrary: m) (auto simp: execute_job_absent split: option.splits)

lemma consume_done:
  assumes "jid \<in> set q" and "jobs m jid = Some job"
  shows "\<exists>job'. jobs (consume q m) jid = Some job' \<and> task_func job' = task_func job \<and>
           (job_status job' = COMPLETED \<or> job_status job' = FAILED) \<and>
           (\<forall>f v. task_func job = Some f \<and> task_end f = TaskReturns v \<longrightarrow>
                  job_status job' = COMPLETED \<and> progress job' = 100) \<and>
           (\<forall>f e. task_func job = Some f \<and> task_end f = TaskRaises e \<longrightarrow>
                  job_status job' = FAILED \<and> job_error job' = Some e)"
  using assms
proof (induction q arbitrary: m job)
  case Nil
  then show ?case by simp
next
  case (Cons x q)
  let ?m1 = "case jobs m x of None \<Rightarrow> m | Some job \<Rightarrow> execute_job m x"
  show ?case
  proof (cases "jid \<in> set q")
    case True
    have "\<exists>job1. jobs ?m1 jid = Some job1 \<and> task_func job1 = task_func job"
    proof (cases "x = jid")
      case True
      then show ?thesis
        using Cons.prems(2) execute_job_done [OF Cons.prems(2)] by auto
    next
      case False
      then show ?thesis
        using Cons.prems(2) by (auto simp: execute_job_other split: option.splits)
    qed
    then obtain job1 where j1: "jobs ?m1 jid = Some job1" "task_func job1 = task_func job"
      by blast
    from Cons.IH [OF True j1(1)] j1(2) show ?thesis
      by simp
  next
    case False
    then have x: "x = jid"
      using Cons.prems(1) by simp
    have "jobs (consume (x # q) m) jid = jobs (execute_job m jid) jid"
      using False x Cons.prems(2) by (simp add: consume_other)
    then show ?thesis
      using execute_job_done [OF Cons.prems(2)] by simp
  qed
qed

text \<open>
  C5, as the code has it. Right after \<^const>\<open>create_job\<close> the job is found by
  \<^const>\<open>get_job\<close>, pending, with progress 0. After \<^const>\<open>process_jobs\<close> it is completed
  with progress 100 when its task returned, and failed with the exception's text as
  error when its task raised. Every queued job that is registered is completed or
  failed afterwards, whatever the jobs before it did: a raising task does not stop the
  loop.
\<close>

theorem job_lifecycle:
  "get_job (snd (create_job m new_id sid jtype (Some f))) new_id =
     Some (fst (create_job m new_id sid jtype (Some f))) \<and>
   job_status (fst (create_job m new_id sid jtype (Some f))) = PENDING \<and>
   progress (fst (create_job m new_id sid jtype (Some f))) = 0 \<and>
   (\<exists>job. get_job (process_jobs (snd (create_job m new_id sid jtype (Some f)))) new_id = Some job \<and>
      (case task_end f of
         TaskReturns v \<Rightarrow> job_status job = COMPLETED \<and> progress job = 100
       | TaskRaises e \<Rightarrow> job_status job = FAILED \<and> job_error job = Some e)) \<and>
   (\<forall>jid job. jid \<in> set (queue (snd (create_job m new_id sid jtype (Some f)))) \<and>
        get_job (process_jobs (snd (create_job m new_id sid jtype (Some f)))) jid = Some job \<longrightarrow>
        job_status job = COMPLETED \<or> job_status job = FAILED)"
proof -
  let ?c = "create_job m new_id sid jtype (Some f)"
  let ?m0 = "(snd ?c) \<lparr> running := True, queue := [] \<rparr>"
  have p: "process_jobs (snd ?c) = consume (queue (snd ?c)) ?m0"
    by (simp add: process_jobs_def)
  have q: "new_id \<in> set (queue (snd ?c))"
    by (simp add: create_job_def Let_def)
  have j: "jobs ?m0 new_id = Some (fst ?c)" and tf: "task_func (fst ?c) = Some f"
    by (simp_all add: create_job_def Let_def)
  have a: "get_job (snd ?c) new_id = Some (fst ?c) \<and> job_status (fst ?c) = PENDING \<and>
           progress (fst ?c) = 0"
    by (simp add: create_job_def get_job_def Let_def)
  have b: "\<exists>job. get_job (process_jobs (snd ?c)) new_id = Some job \<and>
      (case task_end f of
         TaskReturns v \<Rightarrow> job_status job = COMPLETED \<and> progress job = 100
       | TaskRaises e \<Rightarrow> job_status job = FAILED \<and> job_error job = Some e)"
    using consume_done [OF q j] tf
    by (auto simp: p get_job_def split: task_end.splits)
  have c: "job_status job = COMPLETED \<or> job_status job = FAILED"
    if "jid \<in> set (queue (snd ?c)) \<and> get_job (process_jobs (snd ?c)) jid = Some job" for jid job
  proof (cases "jobs ?m0 jid")
    case None
    then show ?thesis
      using that consume_absent [OF None, of "queue (snd ?c)"] by (simp add: p get_job_def)
  next
    case (Some job0)
    from that consume_done [OF _ Some, of "queue (snd ?c)"] show ?thesis
      by (auto simp: p get_job_def)
  qed
  show ?thesis
    using a b c by blast
qed

theorem job_lifecycle_witness:
  "(let failing = \<lparr> reports = [(10, ''Generating outline...'')],
                    task_end = TaskRaises ''Failed to generate presentation: timeout'' \<rparr>;
        working = \<lparr> reports = [(10, ''Generating outline...''), (70, ''Building presentation...'')],
                    task_end = TaskReturns ''done'' \<rparr>;
        m = snd (create_job new_JobManager ''j0'' ''s1'' ''generate'' (Some failing));
        m1 = snd (create_job m ''j1'' ''s1'' ''generate'' (Some working))
    in map_option job_status (get_job m1 ''j1'') = Some PENDING \<and>
       map_option progress (get_job m1 ''j1'') = Some 0 \<and>
       ''j0'' \<in> set (queue m1) \<and>
       map_option job_status (get_job (process_jobs m1) ''j0'') = Some FAILED \<and>
       (\<exists>job. get_job (process_jobs m1) ''j1'' = Some job \<and>
              job_status job = COMPLETED \<and> progress job = 100))"
proof -
  let ?failing = "\<lparr> reports = [(10, ''Generating outline...'')],
                    task_end = TaskRaises ''Failed to generate presentation: timeout'' \<rparr>"
  let ?working = "\<lparr> reports = [(10, ''Generating outline...''), (70, ''Building presentation...'')],
                    task_end = TaskReturns ''done'' \<rparr>"
  let ?m = "snd (create_job new_JobManager ''j0'' ''s1'' ''generate'' (Some ?failing))"
  let ?m1 = "snd (create_job ?m ''j1'' ''s1'' ''generate'' (Some ?working))"
  note t = job_lifecycle [of ?m "''j1''" "''s1''" "''generate''" ?working]
  have a: "map_option job_status (get_job ?m1 ''j1'') = Some PENDING"
          "map_option progress (get_job ?m1 ''j1'') = Some 0"
    using t by simp_all
  have b: "\<exists>job. get_job (process_jobs ?m1) ''j1'' = Some job \<and>
              job_status job = COMPLETED \<and> progress job = 100"
    using t by simp
  have q: "''j0'' \<in> set (queue ?m1)"
    by (simp add: create_job_def new_JobManager_def Let_def)
  have c: "map_option job_status (get_job (process_jobs ?m1) ''j0'') = Some FAILED"
    by (simp add: process_jobs_def create_job_def new_JobManager_def execute_job_def modify_job_def
        update_job_progress_def get_job_def Let_def)
  show ?thesis
    unfolding Let_def using a b q c by blast
qed

text \<open>
  C5, as stated, asks for a non-empty error text after a raising task. The error is
  \<^verbatim>\<open>str(e)\<close>; for an exception without a message that is the empty string.
\<close>

theorem job_lifecycle_counterexample:
  "get_job (process_jobs (snd (create_job new_JobManager ''j1'' ''s1'' ''generate''
                                 (Some \<lparr> reports = [], task_end = TaskRaises [] \<rparr>)))) ''j1'' =
     Some \<lparr> job_id = ''j1'', job_session_id = ''s1'', job_type = ''generate'',
            job_status = FAILED, progress = 0, message = ''Failed: '',
            job_error = Some [], result = None,
            task_func = Some \<lparr> reports = [], task_end = TaskRaises [] \<rparr> \<rparr>"
  by (simp add: process_jobs_def create_job_def new_JobManager_def execute_job_def modify_job_def
      get_job_def Let_def)

lemma inv_update:
  "progress_inv m \<Longrightarrow> percent p \<Longrightarrow> progress_inv (update_job_progress m jid p msg)"
  by (auto simp: progress_inv_def update_job_progress_def split: option.splits if_splits)

lemma inv_execute: "progress_inv m \<Longrightarrow> progress_inv (execute_job m jid)"
  unfolding progress_inv_def
  by (auto simp: execute_job_def modify_job_def update_job_progress_def run_reports_last Let_def
      percent_def list_all_iff split: option.splits task_end.splits if_splits)

lemma inv_consume: "progress_inv m \<Longrightarrow> progress_inv (consume q m)"
  by (induction q arbitrary: m) (auto simp: inv_execute split: option.splits)

lemma inv_apply: "progress_inv m \<Longrightarrow> op_in_range x \<Longrightarrow> progress_inv (apply_job_op x m)"
proof (cases x)
  case (CreateJob new_id sid jtype f)
  assume "progress_inv m" "op_in_range x"
  then show ?thesis
    using CreateJob
    by (cases f) (auto simp: progress_inv_def create_job_def percent_def Let_def split: if_splits)
next
  case (UpdateProgress jid p msg)
  assume "progress_inv m" "op_in_range x"
  then show ?thesis
    using UpdateProgress by (simp add: inv_update)
next
  case ProcessJobs
  assume "progress_inv m" "op_in_range x"
  then have "progress_inv (m \<lparr> running := True, queue := [] \<rparr>)"
    by (simp add: progress_inv_def)
  then show ?thesis
    using ProcessJobs by (simp add: process_jobs_def inv_consume)
qed

lemma inv_run: "progress_inv m \<Longrightarrow> list_all op_in_range ops \<Longrightarrow> progress_inv (run_job_ops ops m)"
  by (induction ops arbitrary: m) (auto simp: inv_apply)

text \<open>
  C6, as the code has it. Starting from a new job manager, under every sequence of
  operations whose progress numbers (those passed to \<^const>\<open>update_job_progress\<close> directly
  and those reported by tasks) lie in 0..100, the progress of every job lies in 0..100.
\<close>

theorem progress_stays_percent:
  assumes "list_all op_in_range ops"
    and "get_job (run_job_ops ops new_JobManager) jid = Some job"
  shows "0 \<le> progress job \<and> progress job \<le> 100"
proof -
  have "progress_inv new_JobManager"
    by (simp add: progress_inv_def new_JobManager_def)
  then have "progress_inv (run_job_ops ops new_JobManager)"
    using assms(1) by (rule inv_run)
  then show ?thesis
    using assms(2) by (auto simp: progress_inv_def get_job_def percent_def)
qed

theorem progress_stays_percent_witness:
  "(let ops = [CreateJob ''j1'' ''s1'' ''generate''
                 (Some \<lparr> reports = [(10, ''Generating outline...''), (70, ''Building presentation...'')],
                         task_end = TaskRaises ''Failed to generate presentation: timeout'' \<rparr>),
               UpdateProgress ''j1'' 5 ''queued'',
               ProcessJobs]
    in list_all op_in_range ops \<and>
       map_option progress (get_job (run_job_ops ops new_JobManager) ''j1'') = Some 70 \<and>
       (\<exists>job. get_job (run_job_ops ops new_JobManager) ''j1'' = Some job \<and>
              0 \<le> progress job \<and> progress job \<le> 100))"
proof -
  let ?f = "\<lparr> reports = [(10, ''Generating outline...''), (70, ''Building presentation...'')],
                         task_end = TaskRaises ''Failed to generate presentation: timeout'' \<rparr>"
  let ?ops = "[CreateJob ''j1'' ''s1'' ''generate'' (Some ?f),
               UpdateProgress ''j1'' 5 ''queued'', ProcessJobs]"
  have r: "list_all op_in_range ?ops"
    by (simp add: percent_def)
  have "map_option progress (get_job (run_job_ops ?ops new_JobManager) ''j1'') = Some 70"
    by (simp add: process_jobs_def create_job_def new_JobManager_def execute_job_def modify_job_def
        update_job_progress_def get_job_def Let_def)
  then obtain job where j: "get_job (run_job_ops ?ops new_JobManager) ''j1'' = Some job"
      "progress job = 70"
    by auto
  from progress_stays_percent [OF r j(1)] have "0 \<le> progress job \<and> progress job \<le> 100" .
  then show ?thesis
    unfolding Let_def using r j by auto
qed

text \<open>
  C6, as stated, allows any integer argument. \<^const>\<open>update_job_progress\<close> stores the
  number as it is: after an update with 150 the progress is 150.
\<close>

theorem progress_counterexample:
  "map_option progress
     (get_job (run_job_ops [CreateJob ''j1'' ''s1'' ''generate''
                              (Some \<lparr> reports = [], task_end = TaskReturns ''done'' \<rparr>),
                            UpdateProgress ''j1'' 150 ''almost there'']
                 new_JobManager) ''j1'') = Some 150"
  by (simp add: create_job_def new_JobManager_def update_job_progress_def get_job_def Let_def)

end
